theory Spec2Isabelle
  imports Main "HOL-Library.Word"
begin

unbundle bit_operations_syntax

section \<open>fastly/hashcode: the string hash\<close>

text \<open>
  \<^verbatim>\<open>hashcode.String\<close> calls \<^verbatim>\<open>crc32.ChecksumIEEE\<close> of Go's standard library.
  The checksum is modelled bit by bit: reflected polynomial \<open>0xEDB88320\<close>, initial
  value and final complement all ones, one byte of the string at a time. A Go string is
  a byte sequence, here a \<open>char list\<close>.
\<close>

fun crc_shift :: "32 word \<Rightarrow> nat \<Rightarrow> 32 word" where
  "crc_shift crc 0 = crc"
| "crc_shift crc (Suc n) =
     crc_shift (if bit crc 0 then drop_bit 1 crc XOR 0xEDB88320 else drop_bit 1 crc) n"

definition crc_byte :: "32 word \<Rightarrow> char \<Rightarrow> 32 word" where
  "crc_byte crc c = crc_shift (crc XOR word_of_nat (of_char c)) 8"

definition ChecksumIEEE :: "string \<Rightarrow> 32 word" where
  "ChecksumIEEE s = NOT (foldl crc_byte (NOT 0) s)"

text \<open>
  \<^verbatim>\<open>func String(s string) int\<close>. Go's \<^verbatim>\<open>int\<close> is 32 or 64 bits wide, depending
  on the platform: the width is the type parameter \<open>'a\<close>. The conversion
  \<^verbatim>\<open>int(uint32)\<close> keeps the bits when \<^verbatim>\<open>int\<close> has 32 of them and extends with zeros
  when it has 64, which is \<open>ucast\<close>; \<^verbatim>\<open>-v\<close> wraps around; the comparisons with 0 are
  signed.
\<close>

definition String :: "string \<Rightarrow> 'a::len word" where
  "String s =
     (let v = (ucast (ChecksumIEEE s) :: 'a word) in
      if 0 \<le>s v then v
      else if 0 \<le>s - v then - v
      else 0)"

section \<open>fastly/resource_fastly_tls_subscription: data\<close>

subsection \<open>The API client\<close>

text \<open>
  The payload types of the client library, with the fields the resource reads. A slice
  that the code tests against \<^verbatim>\<open>nil\<close> is an \<open>option\<close> (\<open>None\<close> is \<^verbatim>\<open>nil\<close>).
  A nested object that the code reaches through a pointer field and dereferences for its
  ID (\<^verbatim>\<open>CommonName\<close>, \<^verbatim>\<open>Configuration\<close>) is an \<open>option\<close> of that ID, and a
  timestamp (\<^verbatim>\<open>*time.Time\<close>) is an \<open>option\<close> of the text that
  \<^verbatim>\<open>Format(time.RFC3339)\<close> gives: \<open>None\<close> is a \<^verbatim>\<open>nil\<close> pointer, whose dereference
  panics. The elements of a slice are the objects themselves.
\<close>

record TLSChallenge =
  ch_Type :: string
  ch_RecordType :: string
  ch_RecordName :: string
  ch_Values :: "string list"

record TLSAuthorizations =
  auth_Challenges :: "TLSChallenge list"

record TLSActivation =
  act_Configuration :: "string option"

record TLSDomain =
  dom_ID :: string
  dom_Activations :: "TLSActivation list option"

record TLSSubscription =
  sub_ID :: string
  sub_CertificateAuthority :: string
  sub_State :: string
  sub_CreatedAt :: "string option"
  sub_UpdatedAt :: "string option"
  sub_Configuration :: "string option"
  sub_CommonName :: "string option"
  sub_Domains :: "string list"
  sub_Certificates :: "string list"
  sub_Authorizations :: "TLSAuthorizations list"

text \<open>
  A Go \<^verbatim>\<open>error\<close> returned by the client: either a \<^verbatim>\<open>*gofastly.HTTPError\<close>, with
  the answer of its \<^verbatim>\<open>IsNotFound()\<close>, or an error of another type. Both carry the
  text of \<^verbatim>\<open>Error()\<close>.
\<close>

datatype api_error =
  HTTPError (IsNotFound: bool) (http_text: string)
| OtherError (other_text: string)

fun error_text :: "api_error \<Rightarrow> string" where
  "error_text (HTTPError _ t) = t"
| "error_text (OtherError t) = t"

record GetTLSSubscriptionInput =
  get_ID :: string
  get_Include :: "string option"

record ListTLSDomainsInput =
  list_FilterTLSCertificateID :: string
  list_Include :: string
  list_Sort :: string

record CreateTLSSubscriptionInput =
  create_CertificateAuthority :: string
  create_Configuration :: "string option"
  create_Domains :: "string list"
  create_CommonName :: "string option"

record UpdateTLSSubscriptionInput =
  update_ID :: string
  update_Force :: bool
  update_CommonName :: string
  update_Domains :: "string list"
  update_Configuration :: string

record DeleteTLSSubscriptionInput =
  delete_ID :: string
  delete_Force :: bool

text \<open>The remote calls a handler issues, in order.\<close>

datatype api_call =
  CallCreate CreateTLSSubscriptionInput
| CallGet GetTLSSubscriptionInput
| CallList ListTLSDomainsInput
| CallUpdate UpdateTLSSubscriptionInput
| CallDelete DeleteTLSSubscriptionInput

text \<open>
  \<^verbatim>\<open>meta.(*APIClient).conn\<close>: what the remote side answers to each request. A handler
  calls each endpoint at most once, so an answer per request covers every behaviour of
  the remote side within one operation. The calls return a pair as in Go: the payload
  (a pointer, \<open>None\<close> when \<^verbatim>\<open>nil\<close>) and the error (\<open>None\<close> when \<^verbatim>\<open>nil\<close>).
\<close>

record APIClient =
  CreateTLSSubscription ::
    "CreateTLSSubscriptionInput \<Rightarrow> TLSSubscription option \<times> api_error option"
  GetTLSSubscription ::
    "GetTLSSubscriptionInput \<Rightarrow> TLSSubscription option \<times> api_error option"
  ListTLSDomains ::
    "ListTLSDomainsInput \<Rightarrow> TLSDomain list \<times> api_error option"
  UpdateTLSSubscription ::
    "UpdateTLSSubscriptionInput \<Rightarrow> TLSSubscription option \<times> api_error option"
  DeleteTLSSubscription ::
    "DeleteTLSSubscriptionInput \<Rightarrow> api_error option"

subsection \<open>The resource data of the plugin SDK\<close>

text \<open>
  The values of \<^verbatim>\<open>map[string]any\<close> that the resource stores: strings and string
  lists. A Go map literal is an association list.
\<close>

datatype any = Str string | Strs "string list"

type_synonym challenge_map = "(string \<times> any) list"

text \<open>
  The attributes of the schema (lines 36 to 151), one field per key. A set of strings
  (\<^verbatim>\<open>schema.TypeSet\<close>) is the list that \<^verbatim>\<open>(*schema.Set).List()\<close> enumerates; two
  sets are the same when the lists have the same elements.
\<close>

record Attrs =
  certificate_authority :: string
  certificate_id :: string
  common_name :: string
  configuration_id :: string
  created_at :: string
  domains :: "string list"
  force_destroy :: bool
  force_update :: bool
  managed_dns_challenge :: "(string \<times> string) list"
  managed_dns_challenges :: "challenge_map list"
  managed_http_challenges :: "challenge_map list"
  state :: string
  updated_at :: string

text \<open>
  \<^verbatim>\<open>*schema.ResourceData\<close>: the ID, the attributes of the last-read state, the planned
  attributes (the configuration merged over the state), and the attributes as
  \<^verbatim>\<open>d.Get\<close> reads them (the planned ones, overwritten by every \<^verbatim>\<open>d.Set\<close>).
  \<^verbatim>\<open>d.Set\<close> returns an error for a key that the schema does not have or a value of
  another type than the schema's; every \<^verbatim>\<open>d.Set\<close> of this resource writes a key of
  its schema with a value of the declared type, so it is a field update that succeeds.
\<close>

record ResourceData =
  Id :: string
  d_state :: Attrs
  d_plan :: Attrs
  d_attrs :: Attrs

text \<open>
  \<^verbatim>\<open>d.HasChange(key)\<close> compares the last-read state with the plan. \<^verbatim>\<open>d.GetOk\<close>
  returns the value and whether it differs from the zero value of its type.
\<close>

definition HasChange :: "string \<Rightarrow> Attrs \<Rightarrow> Attrs \<Rightarrow> bool" where
  "HasChange key old new =
     (if key = ''certificate_authority'' then certificate_authority old \<noteq> certificate_authority new
      else if key = ''certificate_id'' then certificate_id old \<noteq> certificate_id new
      else if key = ''common_name'' then common_name old \<noteq> common_name new
      else if key = ''configuration_id'' then configuration_id old \<noteq> configuration_id new
      else if key = ''created_at'' then created_at old \<noteq> created_at new
      else if key = ''domains'' then set (domains old) \<noteq> set (domains new)
      else if key = ''force_destroy'' then force_destroy old \<noteq> force_destroy new
      else if key = ''force_update'' then force_update old \<noteq> force_update new
      else if key = ''managed_dns_challenge'' then
        set (managed_dns_challenge old) \<noteq> set (managed_dns_challenge new)
      else if key = ''managed_dns_challenges'' then
        set (managed_dns_challenges old) \<noteq> set (managed_dns_challenges new)
      else if key = ''managed_http_challenges'' then
        set (managed_http_challenges old) \<noteq> set (managed_http_challenges new)
      else if key = ''state'' then state old \<noteq> state new
      else if key = ''updated_at'' then updated_at old \<noteq> updated_at new
      else False)"

definition HasChanges :: "string list \<Rightarrow> ResourceData \<Rightarrow> bool" where
  "HasChanges keys d = (\<exists>key \<in> set keys. HasChange key (d_state d) (d_plan d))"

definition GetOk :: "string \<Rightarrow> string \<times> bool" where
  "GetOk v = (v, v \<noteq> '''')"

subsection \<open>Diagnostics and outcomes\<close>

datatype Severity = Error | Warning

record Diagnostic =
  Severity :: Severity
  Summary :: string

text \<open>
  Of a \<^verbatim>\<open>diag.Diagnostic\<close> the severity and the summary are kept. \<^verbatim>\<open>diag.FromErr\<close>
  gives no diagnostic for \<^verbatim>\<open>nil\<close> and one error otherwise, \<^verbatim>\<open>diag.Errorf\<close> gives one
  error; a diagnostic list is fatal when it holds an error.
\<close>

definition FromErr :: "api_error option \<Rightarrow> Diagnostic list" where
  "FromErr err =
     (case err of None \<Rightarrow> [] | Some e \<Rightarrow> [\<lparr>Severity = Error, Summary = error_text e\<rparr>])"

definition Errorf :: "string \<Rightarrow> Diagnostic list" where
  "Errorf msg = [\<lparr>Severity = Error, Summary = msg\<rparr>]"

definition HasError :: "Diagnostic list \<Rightarrow> bool" where
  "HasError diags = (\<exists>x \<in> set diags. Severity x = Error)"

text \<open>
  A handler returns diagnostics or panics (a \<^verbatim>\<open>nil\<close> dereference, an index out of
  range). Its result is the outcome, the resource data as it has left them, and the
  remote calls it has issued.
\<close>

datatype outcome = Panic | Return "Diagnostic list"

type_synonym run = "outcome \<times> ResourceData \<times> api_call list"

section \<open>fastly/resource_fastly_tls_subscription: the handlers\<close>

definition d_Set :: "(Attrs \<Rightarrow> Attrs) \<Rightarrow> ResourceData \<Rightarrow> ResourceData" where
  "d_Set f d = d\<lparr>d_attrs := f (d_attrs d)\<rparr>"

subsection \<open>Read\<close>

text \<open>
  Lines 230 to 252: the loop over the challenges of one authorization, inside the loop
  over the authorizations. \<open>Inl\<close> is the \<^verbatim>\<open>return diag.Errorf(...)\<close> in the loop.
\<close>

fun Read_challenges ::
  "TLSChallenge list \<Rightarrow> challenge_map list \<times> challenge_map list
    \<Rightarrow> Diagnostic list + challenge_map list \<times> challenge_map list" where
  "Read_challenges [] acc = Inr acc"
| "Read_challenges (challenge # rest) (managedHTTPChallenges, managedDNSChallenges) =
     (if ch_Type challenge = ''managed-dns'' then
        (if length (ch_Values challenge) < 1 then
           Inl (Errorf ''fastly API returned no record values for Managed DNS Challenges'')
         else
           Read_challenges rest
             (managedHTTPChallenges,
              managedDNSChallenges @
                [[(''record_type'', Str (ch_RecordType challenge)),
                  (''record_name'', Str (ch_RecordName challenge)),
                  (''record_value'', Str (ch_Values challenge ! 0))]]))
      else
        Read_challenges rest
          (managedHTTPChallenges @
             [[(''record_type'', Str (ch_RecordType challenge)),
               (''record_name'', Str (ch_RecordName challenge)),
               (''record_values'', Strs (ch_Values challenge))]],
           managedDNSChallenges))"

fun Read_authorizations ::
  "TLSAuthorizations list \<Rightarrow> challenge_map list \<times> challenge_map list
    \<Rightarrow> Diagnostic list + challenge_map list \<times> challenge_map list" where
  "Read_authorizations [] acc = Inr acc"
| "Read_authorizations (domain # rest) acc =
     (case Read_challenges (auth_Challenges domain) acc of
        Inl diags \<Rightarrow> Inl diags
      | Inr acc' \<Rightarrow> Read_authorizations rest acc')"

text \<open>
  Lines 260 to 273: the legacy map, from the challenges of the first authorization. The
  map starts \<^verbatim>\<open>nil\<close> (no entries) and every \<open>managed-dns\<close> challenge replaces it.
\<close>

fun Read_legacy ::
  "TLSChallenge list \<Rightarrow> (string \<times> string) list \<Rightarrow> Diagnostic list + (string \<times> string) list" where
  "Read_legacy [] managedDNSChallengeOld = Inr managedDNSChallengeOld"
| "Read_legacy (challenge # rest) managedDNSChallengeOld =
     (if ch_Type challenge = ''managed-dns'' then
        (if length (ch_Values challenge) < 1 then
           Inl (Errorf ''fastly API returned no record values for Managed DNS Challenge'')
         else
           Read_legacy rest
             [(''record_type'', ch_RecordType challenge),
              (''record_name'', ch_RecordName challenge),
              (''record_value'', ch_Values challenge ! 0)])
      else Read_legacy rest managedDNSChallengeOld)"

text \<open>
  Lines 313 to 326: the loop over the listed domains. It stops at the first domain whose
  activations are \<^verbatim>\<open>nil\<close>, goes on after a domain whose activations are an empty
  slice, and stops after writing the configuration of the first activation of the first
  domain that has one. \<open>None\<close> is the panic of line 320 on an activation without
  configuration.
\<close>

fun Read_activations :: "TLSDomain list \<Rightarrow> ResourceData \<Rightarrow> ResourceData option" where
  "Read_activations [] d = Some d"
| "Read_activations (tlsDomain # rest) d =
     (case dom_Activations tlsDomain of
        None \<Rightarrow> Some d
      | Some activations \<Rightarrow>
          if length activations > 0 then
            (case act_Configuration (activations ! 0) of
               None \<Rightarrow> None
             | Some configuration \<Rightarrow>
                 Some (d_Set (\<lambda>a. a\<lparr>configuration_id := configuration\<rparr>) d))
          else Read_activations rest d)"

text \<open>
  Lines 218 to 349: Read once the subscription is there. It panics on
  \<^verbatim>\<open>subscription.Authorizations[0]\<close> of an empty slice (line 261) and on the
  dereference of a \<^verbatim>\<open>nil\<close> \<^verbatim>\<open>CommonName\<close> (line 285), \<^verbatim>\<open>Configuration\<close> (line 303),
  configuration of an activation (line 320), \<^verbatim>\<open>CreatedAt\<close> (line 328) and
  \<^verbatim>\<open>UpdatedAt\<close> (line 332); the resource data are then as the writes before the panic
  have left them.
\<close>

definition Read_subscription ::
  "APIClient \<Rightarrow> TLSSubscription \<Rightarrow> ResourceData \<Rightarrow> api_call list \<Rightarrow> run" where
  "Read_subscription conn subscription d calls =
     (let domains = sub_Domains subscription;
          certificateID =
            (if length (sub_Certificates subscription) > 0
             then sub_Certificates subscription ! 0 else '''')
      in
      case Read_authorizations (sub_Authorizations subscription) ([], []) of
        Inl diags \<Rightarrow> (Return diags, d, calls)
      | Inr (managedHTTPChallenges, managedDNSChallenges) \<Rightarrow>
      (case sub_Authorizations subscription of
         [] \<Rightarrow> (Panic, d, calls)
       | first # _ \<Rightarrow>
      (case Read_legacy (auth_Challenges first) [] of
         Inl diags \<Rightarrow> (Return diags, d, calls)
       | Inr managedDNSChallengeOld \<Rightarrow>
      (let d = d_Set (\<lambda>a. a\<lparr>managed_dns_challenge := managedDNSChallengeOld\<rparr>) d;
           d = d_Set (\<lambda>a. a\<lparr>domains := domains\<rparr>) d
       in
       case sub_CommonName subscription of
         None \<Rightarrow> (Panic, d, calls)
       | Some commonName \<Rightarrow>
      (let d = d_Set (\<lambda>a. a\<lparr>common_name := commonName\<rparr>) d;
           d = d_Set (\<lambda>a. a\<lparr>certificate_id := certificateID\<rparr>) d;
           d = d_Set (\<lambda>a. a\<lparr>certificate_authority :=
                        sub_CertificateAuthority subscription\<rparr>) d
       in
       case sub_Configuration subscription of
         None \<Rightarrow> (Panic, d, calls)
       | Some configuration \<Rightarrow>
      (let d = d_Set (\<lambda>a. a\<lparr>configuration_id := configuration\<rparr>) d;
           input = \<lparr>list_FilterTLSCertificateID = certificateID,
                    list_Include = ''tls_activations'',
                    list_Sort = ''tls_activations.created_at''\<rparr>;
           tlsDomains = fst (ListTLSDomains conn input);
           calls = calls @ [CallList input]
       in
       case Read_activations tlsDomains d of
         None \<Rightarrow> (Panic, d, calls)
       | Some d \<Rightarrow>
      (case sub_CreatedAt subscription of
         None \<Rightarrow> (Panic, d, calls)
       | Some createdAt \<Rightarrow>
      (let d = d_Set (\<lambda>a. a\<lparr>created_at := createdAt\<rparr>) d
       in
       case sub_UpdatedAt subscription of
         None \<Rightarrow> (Panic, d, calls)
       | Some updatedAt \<Rightarrow>
      (let d = d_Set (\<lambda>a. a\<lparr>updated_at := updatedAt\<rparr>) d;
           d = d_Set (\<lambda>a. a\<lparr>state := sub_State subscription\<rparr>) d;
           d = d_Set (\<lambda>a. a\<lparr>managed_dns_challenges := managedDNSChallenges\<rparr>) d;
           d = d_Set (\<lambda>a. a\<lparr>managed_http_challenges := managedHTTPChallenges\<rparr>) d
       in (Return [], d, calls))))))))))"

text \<open>
  Lines 194 to 216. The \<^verbatim>\<open>err\<close> of \<^verbatim>\<open>if err, ok := err.(*gofastly.HTTPError); ...\<close> is
  in scope in the \<^verbatim>\<open>else if err != nil\<close> too: there it is the \<^verbatim>\<open>*gofastly.HTTPError\<close>,
  which is \<^verbatim>\<open>nil\<close> when the error returned by the call is of another type. Read goes
  on with the payload then, and \<^verbatim>\<open>subscription.Domains\<close> on a \<^verbatim>\<open>nil\<close> payload panics.
\<close>

definition resourceFastlyTLSSubscriptionRead :: "APIClient \<Rightarrow> ResourceData \<Rightarrow> run" where
  "resourceFastlyTLSSubscriptionRead conn d =
     (let input = \<lparr>get_ID = Id d, get_Include = Some ''tls_authorizations''\<rparr>;
          calls = [CallGet input]
      in
      case GetTLSSubscription conn input of
        (subscription, err) \<Rightarrow>
          (case err of
             Some (HTTPError notFound text) \<Rightarrow>
               if notFound then
                 (Return [\<lparr>Severity = Warning,
                           Summary = ''TLS subscription ('' @ Id d @
                                     '') not found - removing from state''\<rparr>],
                  d\<lparr>Id := ''''\<rparr>, calls)
               else (Return (FromErr err), d, calls)
           | _ \<Rightarrow>
               (case subscription of
                  None \<Rightarrow> (Panic, d, calls)
                | Some subscription \<Rightarrow> Read_subscription conn subscription d calls)))"

subsection \<open>Create, Update, Delete\<close>

text \<open>
  Modelled from the spec: \<^verbatim>\<open>contains\<close>, a helper of the package that is defined in
  another file. The spec's Create "validates common name is a member of the domain set".
\<close>

definition contains :: "string list \<Rightarrow> string \<Rightarrow> bool" where
  "contains xs x = (x \<in> set xs)"

text \<open>\<^verbatim>\<open>%v\<close> of a string slice.\<close>

fun join_sp :: "string list \<Rightarrow> string" where
  "join_sp [] = ''''"
| "join_sp [x] = x"
| "join_sp (x # xs) = x @ '' '' @ join_sp xs"

definition resourceFastlyTLSSubscriptionCreate :: "APIClient \<Rightarrow> ResourceData \<Rightarrow> run" where
  "resourceFastlyTLSSubscriptionCreate conn d =
     (let configuration =
            (case GetOk (configuration_id (d_attrs d)) of (v, ok) \<Rightarrow> if ok then Some v else None);
          domains = domains (d_attrs d);
          domainStrings = domains
      in
      case GetOk (common_name (d_attrs d)) of
        (v, ok) \<Rightarrow>
          if ok \<and> \<not> contains domainStrings v then
            (Return (Errorf (''domain specified as common_name ('' @ v @
                             '') must also be in domains (['' @ join_sp domainStrings @ ''])'')),
             d, [])
          else
            (let commonName = (if ok then Some v else None);
                 input = \<lparr>create_CertificateAuthority = certificate_authority (d_attrs d),
                          create_Configuration = configuration,
                          create_Domains = domains,
                          create_CommonName = commonName\<rparr>
             in
             case CreateTLSSubscription conn input of
               (subscription, err) \<Rightarrow>
                 (case err of
                    Some e \<Rightarrow> (Return (FromErr err), d, [CallCreate input])
                  | None \<Rightarrow>
                     (case subscription of
                        None \<Rightarrow> (Panic, d, [CallCreate input])
                      | Some subscription \<Rightarrow>
                         (case resourceFastlyTLSSubscriptionRead conn (d\<lparr>Id := sub_ID subscription\<rparr>) of
                            (out, d', calls) \<Rightarrow> (out, d', CallCreate input # calls))))))"

definition resourceFastlyTLSSubscriptionUpdate :: "APIClient \<Rightarrow> ResourceData \<Rightarrow> run" where
  "resourceFastlyTLSSubscriptionUpdate conn d =
     (if HasChanges [''domains'', ''common_name''] d then
        (let domains = domains (d_attrs d);
             updates = \<lparr>update_ID = Id d,
                        update_Force = force_update (d_attrs d),
                        update_CommonName = common_name (d_attrs d),
                        update_Domains = domains,
                        update_Configuration = configuration_id (d_attrs d)\<rparr>
         in
         case UpdateTLSSubscription conn updates of
           (_, err) \<Rightarrow>
             (case err of
                Some e \<Rightarrow> (Return (FromErr err), d, [CallUpdate updates])
              | None \<Rightarrow>
                 (case resourceFastlyTLSSubscriptionRead conn d of
                    (out, d', calls) \<Rightarrow> (out, d', CallUpdate updates # calls))))
      else resourceFastlyTLSSubscriptionRead conn d)"

definition resourceFastlyTLSSubscriptionDelete :: "APIClient \<Rightarrow> ResourceData \<Rightarrow> run" where
  "resourceFastlyTLSSubscriptionDelete conn d =
     (let input = \<lparr>delete_ID = Id d, delete_Force = force_destroy (d_attrs d)\<rparr>;
          err = DeleteTLSSubscription conn input
      in (Return (FromErr err), d, [CallDelete input]))"

section \<open>Go's standard library: lower case of a string\<close>

text \<open>
  The validators call \<^verbatim>\<open>strings.ToLower\<close>. It is modelled with the functions of the
  standard library that it is made of; a string is its bytes, a rune is an \<open>int\<close>. The
  masks and shifts of \<^verbatim>\<open>unicode/utf8\<close> are written as \<open>mod\<close>, \<open>div\<close> and products.
\<close>

definition RuneError :: int where
  "RuneError = 0xFFFD"

text \<open>
  \<^verbatim>\<open>utf8.DecodeRuneInString\<close>: the rune that the string starts with and its width in
  bytes; \<open>(RuneError, 1)\<close> for a byte that does not start a valid encoding (a stray
  continuation byte, an overlong form, a surrogate, a value above U+10FFFF, a sequence
  cut short), \<open>(RuneError, 0)\<close> for the empty string.
\<close>

fun DecodeRuneInString :: "string \<Rightarrow> int \<times> nat" where
  "DecodeRuneInString [] = (RuneError, 0)"
| "DecodeRuneInString (c0 # rest) =
     (let s0 = (of_char c0 :: int) in
      if s0 < 0x80 then (s0, 1)
      else if s0 < 0xC2 \<or> 0xF4 < s0 then (RuneError, 1)
      else
        (let sz = (if s0 < 0xE0 then 2 else if s0 < 0xF0 then 3 else (4 :: nat));
             lo = (if s0 = 0xE0 then 0xA0 else if s0 = 0xF0 then 0x90 else (0x80 :: int));
             hi = (if s0 = 0xED then 0x9F else if s0 = 0xF4 then 0x8F else (0xBF :: int))
         in
         if length (c0 # rest) < sz then (RuneError, 1)
         else
           (let s1 = (of_char (rest ! 0) :: int) in
            if s1 < lo \<or> hi < s1 then (RuneError, 1)
            else if sz \<le> 2 then ((s0 mod 32) * 64 + s1 mod 64, 2)
            else
              (let s2 = (of_char (rest ! 1) :: int) in
               if s2 < 0x80 \<or> 0xBF < s2 then (RuneError, 1)
               else if sz \<le> 3 then ((s0 mod 16) * 4096 + (s1 mod 64) * 64 + s2 mod 64, 3)
               else
                 (let s3 = (of_char (rest ! 2) :: int) in
                  if s3 < 0x80 \<or> 0xBF < s3 then (RuneError, 1)
                  else ((s0 mod 8) * 262144 + (s1 mod 64) * 4096 + (s2 mod 64) * 64
                          + s3 mod 64, 4))))))"

text \<open>
  \<^verbatim>\<open>for _, c := range s\<close>: the runes of a string, one \<open>RuneError\<close> for every byte that
  does not start a valid encoding. The first argument counts the bytes still to skip of
  the rune that was decoded last.
\<close>

fun range_runes :: "nat \<Rightarrow> string \<Rightarrow> int list" where
  "range_runes skip [] = []"
| "range_runes (Suc skip) (c # rest) = range_runes skip rest"
| "range_runes 0 (c # rest) =
     (case DecodeRuneInString (c # rest) of (r, width) \<Rightarrow> r # range_runes (width - 1) rest)"

text \<open>
  \<^verbatim>\<open>utf8.AppendRune\<close>, which \<^verbatim>\<open>(*strings.Builder).WriteRune\<close> calls: the encoding of a
  rune, and the encoding of \<open>RuneError\<close> for a rune that is negative, a surrogate or above
  U+10FFFF.
\<close>

definition AppendRune :: "int \<Rightarrow> string" where
  "AppendRune r =
     (if 0 \<le> r \<and> r \<le> 0x7F then [char_of r]
      else if 0 \<le> r \<and> r \<le> 0x7FF then [char_of (0xC0 + r div 64), char_of (0x80 + r mod 64)]
      else if r < 0 \<or> 0x10FFFF < r \<or> (0xD800 \<le> r \<and> r \<le> 0xDFFF) then
        [char_of (0xEF :: int), char_of (0xBF :: int), char_of (0xBD :: int)]
      else if r \<le> 0xFFFF then
        [char_of (0xE0 + r div 4096), char_of (0x80 + (r div 64) mod 64),
         char_of (0x80 + r mod 64)]
      else
        [char_of (0xF0 + r div 262144), char_of (0x80 + (r div 4096) mod 64),
         char_of (0x80 + (r div 64) mod 64), char_of (0x80 + r mod 64)])"

text \<open>
  \<^verbatim>\<open>strings.Map\<close>: every rune of the range over the string is replaced by its image
  under the mapping, and dropped when the image is negative. (The library returns the
  string itself when no rune differs from its image; the string is then made of the
  encodings of its runes, so this is the same value.)
\<close>

definition Map :: "(int \<Rightarrow> int) \<Rightarrow> string \<Rightarrow> string" where
  "Map mapping s =
     concat (map (\<lambda>c. let r = mapping c in if 0 \<le> r then AppendRune r else [])
               (range_runes 0 s))"

text \<open>
  \<^verbatim>\<open>unicode.ToLower\<close>: the letters \<open>A\<close> to \<open>Z\<close> move to \<open>a\<close> to \<open>z\<close>, every other
  ASCII rune stays, and a rune above \<^verbatim>\<open>unicode.MaxASCII\<close> is looked up in the case
  tables of Unicode. These tables are the parameter \<open>To_LowerCase\<close>
  (\<^verbatim>\<open>unicode.To(unicode.LowerCase, r)\<close>), of which nothing is assumed.
\<close>

definition unicode_ToLower :: "(int \<Rightarrow> int) \<Rightarrow> int \<Rightarrow> int" where
  "unicode_ToLower To_LowerCase r =
     (if r \<le> 0x7F then (if 0x41 \<le> r \<and> r \<le> 0x5A then r + 32 else r)
      else To_LowerCase r)"

text \<open>
  \<^verbatim>\<open>strings.ToLower\<close>: a string of ASCII bytes only is returned as it is when it has no
  letter \<open>A\<close> to \<open>Z\<close>, and with these letters moved to lower case otherwise; any other
  string goes through \<^verbatim>\<open>Map(unicode.ToLower, s)\<close>. \<open>isUpper\<close> is the test
  \<^verbatim>\<open>'A' <= c && c <= 'Z'\<close> on a byte.
\<close>

definition isUpper :: "char \<Rightarrow> bool" where
  "isUpper c = (0x41 \<le> (of_char c :: int) \<and> (of_char c :: int) \<le> 0x5A)"

definition ToLower :: "(int \<Rightarrow> int) \<Rightarrow> string \<Rightarrow> string" where
  "ToLower To_LowerCase s =
     (let isASCII = list_all (\<lambda>c. (of_char c :: int) < 0x80) s;
          hasUpper = list_ex isUpper s
      in
      if isASCII then
        (if \<not> hasUpper then s
         else map (\<lambda>c. if isUpper c then char_of ((of_char c :: int) + 32) else c) s)
      else Map (unicode_ToLower To_LowerCase) s)"

section \<open>fastly/resource_fastly_tls_subscription: the plan-time rules\<close>

text \<open>
  \<^verbatim>\<open>*schema.ResourceDiff\<close>: the last-read state, the planned attributes (which
  \<^verbatim>\<open>d.Get\<close> reads; a computed attribute such as \<open>state\<close> has its last-read value
  there), the keys that force a new resource and the keys marked as computed anew.
\<close>

record ResourceDiff =
  diff_state :: Attrs
  diff_plan :: Attrs
  forcedNewKeys :: "string list"
  newComputedKeys :: "string list"

text \<open>
  A \<^verbatim>\<open>schema.CustomizeDiffFunc\<close> receives the diff and \<^verbatim>\<open>meta\<close>, which holds the API
  client. It returns an error (\<open>None\<close> is \<^verbatim>\<open>nil\<close>) and changes the diff; as for the
  handlers, the remote calls that it issues are part of its result.
\<close>

type_synonym CustomizeDiffFunc =
  "ResourceDiff \<Rightarrow> APIClient \<Rightarrow> string option \<times> ResourceDiff \<times> api_call list"

text \<open>
  The plugin SDK: \<^verbatim>\<open>(*ResourceDiff).ForceNew\<close> marks a key that has a change and
  returns an error for one that has none; \<^verbatim>\<open>customdiff.ForceNewIf\<close> calls it when the
  condition holds and drops its error; \<^verbatim>\<open>customdiff.ValidateValue\<close> hands the planned
  value and \<^verbatim>\<open>meta\<close> to the validator; \<^verbatim>\<open>customdiff.All\<close> runs every function in turn
  on the same diff and collects the errors.
\<close>

definition ForceNew :: "string \<Rightarrow> ResourceDiff \<Rightarrow> string option \<times> ResourceDiff" where
  "ForceNew key d =
     (if \<not> HasChange key (diff_state d) (diff_plan d) then
        (Some (''ForceNew: No changes for '' @ key), d)
      else (None, d\<lparr>forcedNewKeys := forcedNewKeys d @ [key]\<rparr>))"

definition ForceNewIf ::
  "string \<Rightarrow> (ResourceDiff \<Rightarrow> APIClient \<Rightarrow> bool \<times> api_call list) \<Rightarrow> CustomizeDiffFunc" where
  "ForceNewIf key f d meta =
     (case f d meta of
        (forced, calls) \<Rightarrow>
          if forced then (None, snd (ForceNew key d), calls) else (None, d, calls))"

definition ValidateValue ::
  "(Attrs \<Rightarrow> 'v) \<Rightarrow> ('v \<Rightarrow> APIClient \<Rightarrow> string option \<times> api_call list) \<Rightarrow> CustomizeDiffFunc" where
  "ValidateValue get f d meta =
     (case f (get (diff_plan d)) meta of (err, calls) \<Rightarrow> (err, d, calls))"

definition SetNewComputed :: "string \<Rightarrow> ResourceDiff \<Rightarrow> ResourceDiff" where
  "SetNewComputed key d = d\<lparr>newComputedKeys := newComputedKeys d @ [key]\<rparr>"

fun All ::
  "CustomizeDiffFunc list \<Rightarrow> ResourceDiff \<Rightarrow> APIClient
    \<Rightarrow> string list \<times> ResourceDiff \<times> api_call list" where
  "All [] d meta = ([], d, [])"
| "All (f # funcs) d meta =
     (case f d meta of
        (err, d', calls) \<Rightarrow>
          (case All funcs d' meta of
             (errs, d'', calls') \<Rightarrow>
               ((case err of None \<Rightarrow> [] | Some e \<Rightarrow> [e]) @ errs, d'', calls @ calls')))"

text \<open>Lines 407 to 410. The function does not use \<^verbatim>\<open>meta\<close>: it issues no call.\<close>

definition resourceFastlyTLSSubscriptionIsStateImmutable ::
  "ResourceDiff \<Rightarrow> APIClient \<Rightarrow> bool \<times> api_call list" where
  "resourceFastlyTLSSubscriptionIsStateImmutable d meta =
     (let state = state (diff_plan d) in (state \<noteq> ''issued'' \<and> state \<noteq> ''pending'', []))"

text \<open>Lines 412 to 424.\<close>

definition resourceFastlyTLSSubscriptionSetNewComputed :: CustomizeDiffFunc where
  "resourceFastlyTLSSubscriptionSetNewComputed d meta =
     (if HasChange ''domains'' (diff_state d) (diff_plan d) then
        (None,
         SetNewComputed ''managed_http_challenges'' (SetNewComputed ''managed_dns_challenges'' d),
         [])
      else (None, d, []))"

text \<open>
  Lines 430 to 437: the loop returns at the first domain that differs from its lower
  case; the message prints the whole list. The function does not use \<^verbatim>\<open>meta\<close>.
\<close>

fun ValidateDomains_loop :: "(int \<Rightarrow> int) \<Rightarrow> string list \<Rightarrow> string list \<Rightarrow> string option" where
  "ValidateDomains_loop To_LowerCase v [] = None"
| "ValidateDomains_loop To_LowerCase v (domain # rest) =
     (if domain \<noteq> ToLower To_LowerCase domain then
        Some (''tls subscription 'domains' must not contain uppercase letters: ['' @
              join_sp v @ '']'')
      else ValidateDomains_loop To_LowerCase v rest)"

definition resourceFastlyTLSSubscriptionValidateDomains ::
  "(int \<Rightarrow> int) \<Rightarrow> string list \<Rightarrow> APIClient \<Rightarrow> string option \<times> api_call list" where
  "resourceFastlyTLSSubscriptionValidateDomains To_LowerCase v meta =
     (ValidateDomains_loop To_LowerCase v v, [])"

text \<open>Lines 439 to 444. The function does not use \<^verbatim>\<open>meta\<close>.\<close>

definition resourceFastlyTLSSubscriptionValidateCommonName ::
  "(int \<Rightarrow> int) \<Rightarrow> string \<Rightarrow> APIClient \<Rightarrow> string option \<times> api_call list" where
  "resourceFastlyTLSSubscriptionValidateCommonName To_LowerCase v meta =
     (if v \<noteq> ToLower To_LowerCase v then
        (Some (''tls subscription 'common_name' must not contain uppercase letters: '' @ v), [])
      else (None, []))"

text \<open>Lines 28 to 35: the \<^verbatim>\<open>CustomizeDiff\<close> of the resource.\<close>

definition CustomizeDiff ::
  "(int \<Rightarrow> int) \<Rightarrow> ResourceDiff \<Rightarrow> APIClient \<Rightarrow> string list \<times> ResourceDiff \<times> api_call list" where
  "CustomizeDiff To_LowerCase =
     All [ForceNewIf ''configuration_id'' resourceFastlyTLSSubscriptionIsStateImmutable,
          ForceNewIf ''domains'' resourceFastlyTLSSubscriptionIsStateImmutable,
          ForceNewIf ''common_name'' resourceFastlyTLSSubscriptionIsStateImmutable,
          ValidateValue domains (resourceFastlyTLSSubscriptionValidateDomains To_LowerCase),
          ValidateValue common_name (resourceFastlyTLSSubscriptionValidateCommonName To_LowerCase),
          resourceFastlyTLSSubscriptionSetNewComputed]"

section \<open>Vocabulary of the theorems\<close>

text \<open>The parts of a run, and the requests that Read sends.\<close>

abbreviation outcome_of :: "run \<Rightarrow> outcome" where
  "outcome_of r \<equiv> fst r"

abbreviation data_of :: "run \<Rightarrow> ResourceData" where
  "data_of r \<equiv> fst (snd r)"

abbreviation calls_of :: "run \<Rightarrow> api_call list" where
  "calls_of r \<equiv> snd (snd r)"

abbreviation get_input :: "ResourceData \<Rightarrow> GetTLSSubscriptionInput" where
  "get_input d \<equiv> \<lparr>get_ID = Id d, get_Include = Some ''tls_authorizations''\<rparr>"

abbreviation list_input :: "TLSSubscription \<Rightarrow> ListTLSDomainsInput" where
  "list_input sub \<equiv>
     \<lparr>list_FilterTLSCertificateID =
        (if sub_Certificates sub = [] then '''' else hd (sub_Certificates sub)),
      list_Include = ''tls_activations'',
      list_Sort = ''tls_activations.created_at''\<rparr>"

text \<open>
  The error that the fetch of the subscription returned is \<^verbatim>\<open>nil\<close> or not a
  \<^verbatim>\<open>*gofastly.HTTPError\<close>: the cases in which Read goes on to the payload.
\<close>

fun not_HTTPError :: "api_error option \<Rightarrow> bool" where
  "not_HTTPError (Some (HTTPError _ _)) = False"
| "not_HTTPError _ = True"

abbreviation create_input :: "ResourceData \<Rightarrow> CreateTLSSubscriptionInput" where
  "create_input d \<equiv>
     \<lparr>create_CertificateAuthority = certificate_authority (d_attrs d),
      create_Configuration =
        (if configuration_id (d_attrs d) \<noteq> '''' then Some (configuration_id (d_attrs d)) else None),
      create_Domains = domains (d_attrs d),
      create_CommonName =
        (if common_name (d_attrs d) \<noteq> '''' then Some (common_name (d_attrs d)) else None)\<rparr>"

abbreviation update_input :: "ResourceData \<Rightarrow> UpdateTLSSubscriptionInput" where
  "update_input d \<equiv>
     \<lparr>update_ID = Id d,
      update_Force = force_update (d_attrs d),
      update_CommonName = common_name (d_attrs d),
      update_Domains = domains (d_attrs d),
      update_Configuration = configuration_id (d_attrs d)\<rparr>"

abbreviation delete_input :: "ResourceData \<Rightarrow> DeleteTLSSubscriptionInput" where
  "delete_input d \<equiv> \<lparr>delete_ID = Id d, delete_Force = force_destroy (d_attrs d)\<rparr>"

text \<open>
  The domain set or the common name of the plan differs from the last-read state: what
  \<^verbatim>\<open>d.HasChanges("domains", "common_name")\<close> tests.
\<close>

abbreviation changed :: "ResourceData \<Rightarrow> bool" where
  "changed d \<equiv>
     set (domains (d_state d)) \<noteq> set (domains (d_plan d)) \<or>
     common_name (d_state d) \<noteq> common_name (d_plan d)"

text \<open>
  \<^verbatim>\<open>utf8.ValidRune\<close>: the runes that have an encoding of their own. A string is
  well formed when it is the encoding of the runes that a range over it yields, that is,
  when it is valid UTF-8.
\<close>

definition ValidRune :: "int \<Rightarrow> bool" where
  "ValidRune r = ((0 \<le> r \<and> r < 0xD800) \<or> (0xDFFF < r \<and> r \<le> 0x10FFFF))"

definition well_formed :: "string \<Rightarrow> bool" where
  "well_formed s = (concat (map AppendRune (range_runes 0 s)) = s)"

subsection \<open>Example payloads\<close>

definition example_dns_challenge :: TLSChallenge where
  "example_dns_challenge =
     \<lparr>ch_Type = ''managed-dns'', ch_RecordType = ''CNAME'',
      ch_RecordName = ''_acme-challenge.example.com'',
      ch_Values = [''one.fastly-validations.com'', ''two.fastly-validations.com'']\<rparr>"

definition example_http_challenge :: TLSChallenge where
  "example_http_challenge =
     \<lparr>ch_Type = ''managed-http-a'', ch_RecordType = ''A'',
      ch_RecordName = ''example.com'',
      ch_Values = [''151.101.2.132'', ''151.101.66.132'']\<rparr>"

definition example_subscription :: "TLSAuthorizations list \<Rightarrow> TLSSubscription" where
  "example_subscription auths =
     \<lparr>sub_ID = ''sub1'', sub_CertificateAuthority = ''lets-encrypt'', sub_State = ''issued'',
      sub_CreatedAt = Some ''2024-01-01T00:00:00Z'',
      sub_UpdatedAt = Some ''2024-01-02T00:00:00Z'',
      sub_Configuration = Some ''cfg-own'', sub_CommonName = Some ''example.com'',
      sub_Domains = [''example.com''], sub_Certificates = [''cert1''],
      sub_Authorizations = auths\<rparr>"

definition example_attrs :: "string list \<Rightarrow> string \<Rightarrow> Attrs" where
  "example_attrs doms cn =
     \<lparr>certificate_authority = ''lets-encrypt'', certificate_id = ''cert1'',
      common_name = cn, configuration_id = ''cfg-own'',
      created_at = ''2024-01-01T00:00:00Z'', domains = doms,
      force_destroy = False, force_update = False,
      managed_dns_challenge = [], managed_dns_challenges = [], managed_http_challenges = [],
      state = ''issued'', updated_at = ''2024-01-02T00:00:00Z''\<rparr>"

definition example_data :: "Attrs \<Rightarrow> Attrs \<Rightarrow> ResourceData" where
  "example_data old new = \<lparr>Id = ''sub1'', d_state = old, d_plan = new, d_attrs = new\<rparr>"

definition example_conn ::
  "TLSAuthorizations list \<Rightarrow> TLSDomain list \<times> api_error option \<Rightarrow> APIClient" where
  "example_conn auths listed =
     \<lparr>CreateTLSSubscription = (\<lambda>_. (Some (example_subscription auths), None)),
      GetTLSSubscription = (\<lambda>_. (Some (example_subscription auths), None)),
      ListTLSDomains = (\<lambda>_. listed),
      UpdateTLSSubscription = (\<lambda>_. (Some (example_subscription auths), None)),
      DeleteTLSSubscription = (\<lambda>_. None)\<rparr>"

definition failing_conn :: APIClient where
  "failing_conn =
     \<lparr>CreateTLSSubscription = (\<lambda>_. (None, Some (HTTPError False ''400 Bad Request''))),
      GetTLSSubscription = (\<lambda>_. (None, Some (HTTPError False ''500 Internal Server Error''))),
      ListTLSDomains = (\<lambda>_. ([], Some (HTTPError False ''500 Internal Server Error''))),
      UpdateTLSSubscription = (\<lambda>_. (None, Some (HTTPError False ''409 Conflict''))),
      DeleteTLSSubscription = (\<lambda>_. Some (OtherError ''connection refused''))\<rparr>"

definition example_auths :: "TLSAuthorizations list" where
  "example_auths = [\<lparr>auth_Challenges = [example_dns_challenge, example_http_challenge]\<rparr>]"

definition example_d :: ResourceData where
  "example_d = example_data (example_attrs [''example.com''] ''example.com'')
                            (example_attrs [''example.com''] ''example.com'')"

definition stale_d :: ResourceData where
  "stale_d = example_data (example_attrs [''example.com''] ''example.com'')
               ((example_attrs [''example.com''] ''example.com'')
                  \<lparr>configuration_id := ''cfg-stale''\<rparr>)"

definition changed_d :: ResourceData where
  "changed_d = example_data (example_attrs [''example.com''] ''example.com'')
                 (example_attrs [''example.com'', ''www.example.com''] ''example.com'')"

definition foreign_name_d :: ResourceData where
  "foreign_name_d = example_data (example_attrs [] '''')
                      (example_attrs [''example.com'', ''www.example.com''] ''other.example.org'')"

definition domain_absent :: TLSDomain where
  "domain_absent = \<lparr>dom_ID = ''a.example.com'', dom_Activations = None\<rparr>"

definition domain_empty :: TLSDomain where
  "domain_empty = \<lparr>dom_ID = ''b.example.com'', dom_Activations = Some []\<rparr>"

definition domain_active :: TLSDomain where
  "domain_active =
     \<lparr>dom_ID = ''c.example.com'',
      dom_Activations = Some [\<lparr>act_Configuration = Some ''cfg-renewed''\<rparr>,
                              \<lparr>act_Configuration = Some ''cfg-later''\<rparr>]\<rparr>"

definition example_diff :: "string \<Rightarrow> ResourceDiff" where
  "example_diff st =
     \<lparr>diff_state = (example_attrs [''example.com''] ''example.com'')\<lparr>state := st\<rparr>,
      diff_plan = (example_attrs [''example.com'', ''www.example.com''] ''example.com'')\<lparr>state := st\<rparr>,
      forcedNewKeys = [], newComputedKeys = []\<rparr>"

text \<open>
  A part of the case tables of Unicode: the capital letters of Latin-1, U+00C0 to U+00DE
  without the multiplication sign U+00D7, have their small letter 32 places further. The
  domain \<open>Ecole.example.com\<close> with an acute accent on its first letter, as a capital and as
  a small letter, in UTF-8; and \<open>cafe\<close> with the accent in Latin-1, which is not UTF-8.
\<close>

definition latin1_LowerCase :: "int \<Rightarrow> int" where
  "latin1_LowerCase r = (if 0xC0 \<le> r \<and> r \<le> 0xDE \<and> r \<noteq> 0xD7 then r + 32 else r)"

definition capital_ecole :: string where
  "capital_ecole = [CHR 0xC3, CHR 0x89] @ ''cole.example.com''"

definition small_ecole :: string where
  "small_ecole = [CHR 0xC3, CHR 0xA9] @ ''cole.example.com''"

definition latin1_cafe :: string where
  "latin1_cafe = ''caf'' @ [CHR 0xE9]"

section \<open>Theorems\<close>

lemma sint_neg_twice_min:
  fixes w :: "'a::len word"
  assumes "sint w < 0" and "sint (- w) < 0"
  shows "sint w = - (2 ^ (LENGTH('a) - 1))"
proof (rule ccontr)
  assume ne: "sint w \<noteq> - (2 ^ (LENGTH('a) - 1))"
  have lo: "- (2 ^ (LENGTH('a) - 1)) \<le> sint w"
    by (rule sint_ge)
  from ne lo assms(1) have "- (2 ^ (LENGTH('a) - 1)) \<le> - sint w" "- sint w < 2 ^ (LENGTH('a) - 1)"
    by linarith+
  then have "signed_take_bit (LENGTH('a) - 1) (- sint w) = - sint w"
    by (simp add: signed_take_bit_int_eq_self)
  then have "sint (- w) = - sint w"
    by (simp add: sint_word_minus)
  with assms show False by linarith
qed

text \<open>
  C10. For every input string and either width of \<^verbatim>\<open>int\<close>, \<open>String\<close> returns a
  non-negative integer, which is the CRC-32 (IEEE) checksum read as a signed integer,
  negated when negative, and 0 when it is the minimum signed value (whose negation is
  not representable). \<open>String\<close> is a function of the string alone, so it is
  deterministic; on \<open>''test''\<close> the checksum is \<open>0xD87F7E0C\<close> and the hash is
  3632233996 with a 64-bit \<^verbatim>\<open>int\<close> and 662733300 with a 32-bit one.
\<close>

theorem String_nonnegative_crc32:
  fixes s :: string
  defines "v \<equiv> sint (ucast (ChecksumIEEE s) :: 'a::len word)"
  shows "0 \<le> sint (String s :: 'a word)
    \<and> sint (String s :: 'a word) =
        (if 0 \<le> v then v else if v = - (2 ^ (LENGTH('a) - 1)) then 0 else - v)
    \<and> ChecksumIEEE ''test'' = 0xD87F7E0C
    \<and> sint (String ''test'' :: 64 word) = 3632233996
    \<and> sint (String ''test'' :: 32 word) = 662733300"
proof -
  let ?w = "ucast (ChecksumIEEE s) :: 'a word"
  have nonneg: "0 \<le> sint (String s :: 'a word)"
    by (simp add: String_def Let_def word_sle_eq)
  have shape: "sint (String s :: 'a word) =
      (if 0 \<le> v then v else if v = - (2 ^ (LENGTH('a) - 1)) then 0 else - v)"
  proof (cases "0 \<le> sint ?w")
    case True
    then show ?thesis by (simp add: String_def Let_def word_sle_eq v_def)
  next
    case neg: False
    show ?thesis
    proof (cases "0 \<le> sint (- ?w)")
      case True
      have "sint ?w \<noteq> - (2 ^ (LENGTH('a) - 1))"
      proof
        assume m: "sint ?w = - (2 ^ (LENGTH('a) - 1))"
        have "sint (- ?w) = signed_take_bit (LENGTH('a) - 1) (- sint ?w)"
          by (rule sint_word_minus)
        also have "\<dots> = signed_take_bit (LENGTH('a) - 1) (2 ^ (LENGTH('a) - 1) :: int)"
          by (simp add: m)
        also have "\<dots> = - (2 ^ (LENGTH('a) - 1))"
        proof -
          have "(2::int) ^ LENGTH('a) = 2 ^ Suc (LENGTH('a) - Suc 0)"
            by (simp only: Suc_pred [OF len_gt_0])
          then have "(2::int) * 2 ^ (LENGTH('a) - Suc 0) = 2 ^ LENGTH('a)"
            by (simp only: power_Suc)
          then show ?thesis
            by (simp add: signed_take_bit_eq_take_bit_minus take_bit_eq_mod bit_exp_iff)
        qed
        finally show False using True by simp
      qed
      moreover have "sint (- ?w) = - sint ?w"
      proof -
        have "- (2 ^ (LENGTH('a) - 1)) \<le> sint ?w" by (rule sint_ge)
        with calculation neg
        have "- (2 ^ (LENGTH('a) - 1)) \<le> - sint ?w" "- sint ?w < 2 ^ (LENGTH('a) - 1)"
          by linarith+
        then have "signed_take_bit (LENGTH('a) - 1) (- sint ?w) = - sint ?w"
          by (simp add: signed_take_bit_int_eq_self)
        then show ?thesis by (simp add: sint_word_minus)
      qed
      ultimately show ?thesis
        using neg True by (simp add: String_def Let_def word_sle_eq v_def)
    next
      case False
      with neg have "sint ?w = - (2 ^ (LENGTH('a) - 1))"
        by (intro sint_neg_twice_min) simp_all
      with neg False show ?thesis
        by (simp add: String_def Let_def word_sle_eq v_def)
    qed
  qed
  have t: "ChecksumIEEE ''test'' = 0xD87F7E0C"
    by code_simp
  have t64: "sint (String ''test'' :: 64 word) = 3632233996"
    by code_simp
  have t32: "sint (String ''test'' :: 32 word) = 662733300"
    by code_simp
  from nonneg shape t t64 t32 show ?thesis by blast
qed

subsection \<open>Read\<close>

lemma Read_challenges_Inl:
  "\<exists>c \<in> set cs. ch_Type c = ''managed-dns'' \<and> ch_Values c = [] \<Longrightarrow>
   Read_challenges cs acc =
     Inl (Errorf ''fastly API returned no record values for Managed DNS Challenges'')"
proof (induction cs arbitrary: acc)
  case Nil
  then show ?case by simp
next
  case (Cons c cs)
  obtain h dn where acc: "acc = (h, dn)" by (cases acc)
  show ?case
  proof (cases "ch_Type c = ''managed-dns'' \<and> ch_Values c = []")
    case True
    then show ?thesis by (simp add: acc)
  next
    case False
    with Cons.prems have "\<exists>c \<in> set cs. ch_Type c = ''managed-dns'' \<and> ch_Values c = []"
      by auto
    then show ?thesis using False by (simp add: acc Cons.IH)
  qed
qed

lemma Read_challenges_Inr:
  "\<forall>c \<in> set cs. ch_Type c = ''managed-dns'' \<longrightarrow> ch_Values c \<noteq> [] \<Longrightarrow>
   Read_challenges cs (h, dn) =
     Inr (h @ map (\<lambda>c. [(''record_type'', Str (ch_RecordType c)),
                         (''record_name'', Str (ch_RecordName c)),
                         (''record_values'', Strs (ch_Values c))])
                 (filter (\<lambda>c. ch_Type c \<noteq> ''managed-dns'') cs),
          dn @ map (\<lambda>c. [(''record_type'', Str (ch_RecordType c)),
                          (''record_name'', Str (ch_RecordName c)),
                          (''record_value'', Str (hd (ch_Values c)))])
                  (filter (\<lambda>c. ch_Type c = ''managed-dns'') cs))"
proof (induction cs arbitrary: h dn)
  case Nil
  then show ?case by simp
next
  case (Cons c cs)
  then show ?case by (simp add: hd_conv_nth)
qed


lemma Read_authorizations_Inl:
  "\<exists>c \<in> set (concat (map auth_Challenges as)). ch_Type c = ''managed-dns'' \<and> ch_Values c = [] \<Longrightarrow>
   Read_authorizations as acc =
     Inl (Errorf ''fastly API returned no record values for Managed DNS Challenges'')"
proof (induction as arbitrary: acc)
  case Nil
  then show ?case by simp
next
  case (Cons a as)
  show ?case
  proof (cases "\<exists>c \<in> set (auth_Challenges a). ch_Type c = ''managed-dns'' \<and> ch_Values c = []")
    case True
    then show ?thesis by (simp add: Read_challenges_Inl)
  next
    case False
    with Cons.prems
    have rest: "\<exists>c \<in> set (concat (map auth_Challenges as)). ch_Type c = ''managed-dns'' \<and> ch_Values c = []"
      by auto
    from False have ok: "\<forall>c \<in> set (auth_Challenges a). ch_Type c = ''managed-dns'' \<longrightarrow> ch_Values c \<noteq> []"
      by blast
    obtain h dn where acc: "acc = (h, dn)" by (cases acc)
    show ?thesis
      by (simp add: acc Read_challenges_Inr [OF ok] Cons.IH [OF rest])
  qed
qed

lemma Read_authorizations_Inr:
  "\<forall>c \<in> set (concat (map auth_Challenges as)). ch_Type c = ''managed-dns'' \<longrightarrow> ch_Values c \<noteq> [] \<Longrightarrow>
   Read_authorizations as (h, dn) =
     Inr (h @ map (\<lambda>c. [(''record_type'', Str (ch_RecordType c)),
                         (''record_name'', Str (ch_RecordName c)),
                         (''record_values'', Strs (ch_Values c))])
                 (filter (\<lambda>c. ch_Type c \<noteq> ''managed-dns'') (concat (map auth_Challenges as))),
          dn @ map (\<lambda>c. [(''record_type'', Str (ch_RecordType c)),
                          (''record_name'', Str (ch_RecordName c)),
                          (''record_value'', Str (hd (ch_Values c)))])
                  (filter (\<lambda>c. ch_Type c = ''managed-dns'') (concat (map auth_Challenges as))))"
proof (induction as arbitrary: h dn)
  case Nil
  then show ?case by simp
next
  case (Cons a as)
  from Cons.prems
  have ok: "\<forall>c \<in> set (auth_Challenges a). ch_Type c = ''managed-dns'' \<longrightarrow> ch_Values c \<noteq> []"
    and rest: "\<forall>c \<in> set (concat (map auth_Challenges as)). ch_Type c = ''managed-dns'' \<longrightarrow> ch_Values c \<noteq> []"
    by auto
  show ?case
    by (simp add: Read_challenges_Inr [OF ok] Cons.IH [OF rest])
qed

lemma Read_legacy_Inr:
  "\<forall>c \<in> set cs. ch_Type c = ''managed-dns'' \<longrightarrow> ch_Values c \<noteq> [] \<Longrightarrow>
   \<exists>m. Read_legacy cs old = Inr m"
  by (induction cs arbitrary: old) auto

lemma Read_activations_closed:
  "Read_activations doms d =
     (case List.find (\<lambda>t. dom_Activations t \<noteq> Some []) doms of
        None \<Rightarrow> Some d
      | Some t \<Rightarrow>
          (case dom_Activations t of
             None \<Rightarrow> Some d
           | Some acts \<Rightarrow>
               (case act_Configuration (hd acts) of
                  None \<Rightarrow> None
                | Some configuration \<Rightarrow>
                    Some (d_Set (\<lambda>a. a\<lparr>configuration_id := configuration\<rparr>) d))))"
  by (induction doms) (auto simp: hd_conv_nth split: option.splits)

lemma Read_activations_fields:
  assumes "Read_activations doms d = Some d'"
  shows "Id d' = Id d" "d_state d' = d_state d" "d_plan d' = d_plan d"
  using assms
  by (auto simp: Read_activations_closed d_Set_def split: option.splits)

lemma Read_activations_configuration_id:
  assumes "Read_activations doms d = Some d'"
  shows "Some (configuration_id (d_attrs d')) =
     (case List.find (\<lambda>t. dom_Activations t \<noteq> Some []) doms of
        None \<Rightarrow> Some (configuration_id (d_attrs d))
      | Some t \<Rightarrow>
          (case dom_Activations t of
             None \<Rightarrow> Some (configuration_id (d_attrs d))
           | Some acts \<Rightarrow> act_Configuration (hd acts)))"
  using assms
  by (auto simp: Read_activations_closed d_Set_def split: option.splits)

lemma Read_activations_no_panic:
  assumes "\<forall>t \<in> set doms. \<forall>acts. dom_Activations t = Some acts \<longrightarrow>
             (\<forall>a \<in> set acts. act_Configuration a \<noteq> None)"
  shows "\<exists>d'. Read_activations doms d = Some d'"
  using assms
proof (induction doms)
  case Nil
  then show ?case by simp
next
  case (Cons t doms)
  show ?case
  proof (cases "dom_Activations t")
    case None
    then show ?thesis by simp
  next
    case (Some acts)
    show ?thesis
    proof (cases acts)
      case Nil
      with Some Cons show ?thesis by simp
    next
      case (Cons a rest)
      with Some Cons.prems have "act_Configuration a \<noteq> None" by auto
      with Some Cons show ?thesis by auto
    qed
  qed
qed

lemma Read_activations_panic_independent:
  "Read_activations doms d = None \<longleftrightarrow> Read_activations doms d0 = None"
  by (simp add: Read_activations_closed split: option.splits)

text \<open>Read on a payload that passes the checks and has every object that Read dereferences.\<close>

lemma Read_subscription_Return:
  assumes auths: "sub_Authorizations sub \<noteq> []"
    and vals: "\<forall>c \<in> set (concat (map auth_Challenges (sub_Authorizations sub))).
                 ch_Type c = ''managed-dns'' \<longrightarrow> ch_Values c \<noteq> []"
    and cn: "sub_CommonName sub = Some commonName"
    and cfg: "sub_Configuration sub = Some configuration"
    and ca: "sub_CreatedAt sub = Some createdAt"
    and ua: "sub_UpdatedAt sub = Some updatedAt"
    and act: "Read_activations (fst (ListTLSDomains conn (list_input sub))) d0 = Some d1"
  shows "\<exists>d'. Read_subscription conn sub d calls =
      (Return [], d', calls @ [CallList (list_input sub)])
    \<and> Id d' = Id d \<and> d_state d' = d_state d \<and> d_plan d' = d_plan d
    \<and> managed_dns_challenges (d_attrs d') =
        map (\<lambda>c. [(''record_type'', Str (ch_RecordType c)),
                   (''record_name'', Str (ch_RecordName c)),
                   (''record_value'', Str (hd (ch_Values c)))])
          (filter (\<lambda>c. ch_Type c = ''managed-dns'')
             (concat (map auth_Challenges (sub_Authorizations sub))))
    \<and> managed_http_challenges (d_attrs d') =
        map (\<lambda>c. [(''record_type'', Str (ch_RecordType c)),
                   (''record_name'', Str (ch_RecordName c)),
                   (''record_values'', Strs (ch_Values c))])
          (filter (\<lambda>c. ch_Type c \<noteq> ''managed-dns'')
             (concat (map auth_Challenges (sub_Authorizations sub))))
    \<and> Some (configuration_id (d_attrs d')) =
        (case List.find (\<lambda>t. dom_Activations t \<noteq> Some [])
                (fst (ListTLSDomains conn (list_input sub))) of
           None \<Rightarrow> Some configuration
         | Some t \<Rightarrow>
             (case dom_Activations t of
                None \<Rightarrow> Some configuration
              | Some acts \<Rightarrow> act_Configuration (hd acts)))"
proof -
  obtain first others where fo: "sub_Authorizations sub = first # others"
    using auths by (cases "sub_Authorizations sub") auto
  from vals fo have "\<forall>c \<in> set (auth_Challenges first). ch_Type c = ''managed-dns'' \<longrightarrow> ch_Values c \<noteq> []"
    by auto
  then obtain m where m: "Read_legacy (auth_Challenges first) [] = Inr m"
    using Read_legacy_Inr by blast
  define cid where "cid = (if sub_Certificates sub = [] then '''' else hd (sub_Certificates sub))"
  have cert: "(if 0 < length (sub_Certificates sub) then sub_Certificates sub ! 0 else '''') = cid"
    unfolding cid_def by (cases "sub_Certificates sub") auto
  define doms where "doms = fst (ListTLSDomains conn
      \<lparr>list_FilterTLSCertificateID = cid, list_Include = ''tls_activations'',
       list_Sort = ''tls_activations.created_at''\<rparr>)"
  note ra = Read_authorizations_Inr [OF vals, of "[]" "[]", simplified]
  have legacy: "(case sub_Authorizations sub of [] \<Rightarrow> x | f # _ \<Rightarrow> y f) = y first" for x :: run and y
    by (simp add: fo)
  let ?dX = "d\<lparr>d_attrs := (d_attrs d)
      \<lparr>managed_dns_challenge := m, domains := sub_Domains sub, common_name := commonName,
       certificate_id := cid,
       certificate_authority := sub_CertificateAuthority sub,
       configuration_id := configuration\<rparr>\<rparr>"
  from act have "Read_activations doms d0 = Some d1"
    by (simp only: doms_def cid_def)
  then have "Read_activations doms ?dX \<noteq> None"
    using Read_activations_panic_independent [of doms ?dX d0] by simp
  then obtain dY where dY: "Read_activations doms ?dX = Some dY"
    by blast
  have cfgY: "Some (configuration_id (d_attrs dY)) =
      (case List.find (\<lambda>t. dom_Activations t \<noteq> Some []) doms of
         None \<Rightarrow> Some configuration
       | Some t \<Rightarrow>
           (case dom_Activations t of
              None \<Rightarrow> Some configuration
            | Some acts \<Rightarrow> act_Configuration (hd acts)))"
    using Read_activations_configuration_id [OF dY] by (simp cong: option.case_cong)
  note f = Read_activations_fields [OF dY] cfgY
  show ?thesis
    apply (fold cid_def)
    apply (simp only: Read_subscription_def Let_def cert ra sum.case prod.case legacy m cn cfg ca ua
        option.case)
    apply (fold doms_def)
    apply (simp add: d_Set_def dY f)
    done
qed

lemma Read_payload:
  assumes "GetTLSSubscription conn (get_input d) = (Some sub, err)" and "not_HTTPError err"
  shows "resourceFastlyTLSSubscriptionRead conn d = Read_subscription conn sub d [CallGet (get_input d)]"
proof (cases err)
  case None
  with assms show ?thesis by (simp add: resourceFastlyTLSSubscriptionRead_def)
next
  case (Some e)
  with assms obtain t where "e = OtherError t" by (cases e) auto
  with Some assms show ?thesis by (simp add: resourceFastlyTLSSubscriptionRead_def)
qed

lemma Read_subscription_Panic:
  "sub_Authorizations sub = [] \<Longrightarrow> Read_subscription conn sub d calls = (Panic, d, calls)"
  by (simp add: Read_subscription_def)

lemma Read_subscription_Errorf:
  assumes "\<exists>c \<in> set (concat (map auth_Challenges (sub_Authorizations sub))).
             ch_Type c = ''managed-dns'' \<and> ch_Values c = []"
  shows "Read_subscription conn sub d calls =
    (Return (Errorf ''fastly API returned no record values for Managed DNS Challenges''), d, calls)"
  by (simp add: Read_subscription_def Read_authorizations_Inl [OF assms])

lemma Read_subscription_Return_conv:
  assumes "outcome_of (Read_subscription conn sub d calls) = Return []"
  shows "sub_Authorizations sub \<noteq> []"
    and "\<forall>c \<in> set (concat (map auth_Challenges (sub_Authorizations sub))).
        ch_Type c = ''managed-dns'' \<longrightarrow> ch_Values c \<noteq> []"
    and "\<exists>commonName. sub_CommonName sub = Some commonName"
    and "\<exists>configuration. sub_Configuration sub = Some configuration"
    and "\<exists>createdAt. sub_CreatedAt sub = Some createdAt"
    and "\<exists>updatedAt. sub_UpdatedAt sub = Some updatedAt"
    and "\<exists>d0 d1. Read_activations (fst (ListTLSDomains conn (list_input sub))) d0 = Some d1"
proof -
  show auths: "sub_Authorizations sub \<noteq> []"
    using assms by (auto simp: Read_subscription_Panic)
  show vals: "\<forall>c \<in> set (concat (map auth_Challenges (sub_Authorizations sub))).
        ch_Type c = ''managed-dns'' \<longrightarrow> ch_Values c \<noteq> []"
  proof (rule ccontr)
    assume "\<not> ?thesis"
    then have "\<exists>c \<in> set (concat (map auth_Challenges (sub_Authorizations sub))).
             ch_Type c = ''managed-dns'' \<and> ch_Values c = []"
      by blast
    from Read_subscription_Errorf [OF this, of conn d calls] assms
    show False by (simp add: Errorf_def)
  qed
  obtain first others where fo: "sub_Authorizations sub = first # others"
    using auths by (cases "sub_Authorizations sub") auto
  from vals fo have "\<forall>c \<in> set (auth_Challenges first). ch_Type c = ''managed-dns'' \<longrightarrow> ch_Values c \<noteq> []"
    by auto
  then obtain m where m: "Read_legacy (auth_Challenges first) [] = Inr m"
    using Read_legacy_Inr by blast
  define cid where "cid = (if sub_Certificates sub = [] then '''' else hd (sub_Certificates sub))"
  have cert: "(if 0 < length (sub_Certificates sub) then sub_Certificates sub ! 0 else '''') = cid"
    unfolding cid_def by (cases "sub_Certificates sub") auto
  define doms where "doms = fst (ListTLSDomains conn
      \<lparr>list_FilterTLSCertificateID = cid, list_Include = ''tls_activations'',
       list_Sort = ''tls_activations.created_at''\<rparr>)"
  note ra = Read_authorizations_Inr [OF vals, of "[]" "[]", simplified]
  have legacy: "(case sub_Authorizations sub of [] \<Rightarrow> x | f # _ \<Rightarrow> y f) = y first" for x :: run and y
    by (simp add: fo)
  from assms have all: "(\<exists>commonName. sub_CommonName sub = Some commonName)
      \<and> (\<exists>configuration. sub_Configuration sub = Some configuration)
      \<and> (\<exists>createdAt. sub_CreatedAt sub = Some createdAt)
      \<and> (\<exists>updatedAt. sub_UpdatedAt sub = Some updatedAt)
      \<and> (\<exists>d0 d1. Read_activations doms d0 = Some d1)"
    apply (simp only: Read_subscription_def Let_def cert ra sum.case prod.case legacy m)
    apply (fold doms_def)
    apply (auto split: option.splits)
    done
  from all show "\<exists>commonName. sub_CommonName sub = Some commonName"
    and "\<exists>configuration. sub_Configuration sub = Some configuration"
    and "\<exists>createdAt. sub_CreatedAt sub = Some createdAt"
    and "\<exists>updatedAt. sub_UpdatedAt sub = Some updatedAt"
    by blast+
  from all show "\<exists>d0 d1. Read_activations (fst (ListTLSDomains conn (list_input sub))) d0 = Some d1"
    by (simp only: doms_def cid_def)
qed

lemmas example_defs =
  example_dns_challenge_def example_http_challenge_def example_subscription_def
  example_attrs_def example_data_def example_conn_def failing_conn_def
  example_auths_def example_d_def changed_d_def

lemmas Read_defs =
  resourceFastlyTLSSubscriptionRead_def Read_subscription_def d_Set_def Let_def

text \<open>
  C3. When Read has the payload of a subscription, the loop over its challenges ends
  with a fatal error if some challenge of type \<open>managed-dns\<close> has no value, and
  otherwise with the two collections: the DNS collection holds, in the payload's order,
  one entry per challenge of type \<open>managed-dns\<close> with the single value \<open>record_value\<close>
  equal to the first value of the challenge, and the HTTP collection holds one entry per
  challenge of any other type with all its values. In the first case Read returns a
  fatal diagnostic after the one call that fetched the subscription, with the resource
  data as they were. Whenever Read returns without a diagnostic, the resource data hold
  these two collections. Read does return without a diagnostic on a payload that has an
  authorization, a value for every challenge of type \<open>managed-dns\<close> and every object
  that Read dereferences later: the common name, the configuration, the two timestamps
  and the configuration of the activations of the listed domains. (Read panics on a
  payload without one of the objects that it dereferences.)
\<close>

theorem Read_classifies_challenges:
  assumes get: "GetTLSSubscription conn (get_input d) = (Some sub, err)"
    and err: "not_HTTPError err"
  shows "Read_authorizations (sub_Authorizations sub) ([], []) =
      (if \<exists>c \<in> set (concat (map auth_Challenges (sub_Authorizations sub))).
            ch_Type c = ''managed-dns'' \<and> ch_Values c = []
       then Inl (Errorf ''fastly API returned no record values for Managed DNS Challenges'')
       else Inr
         (map (\<lambda>c. [(''record_type'', Str (ch_RecordType c)),
                     (''record_name'', Str (ch_RecordName c)),
                     (''record_values'', Strs (ch_Values c))])
            (filter (\<lambda>c. ch_Type c \<noteq> ''managed-dns'')
               (concat (map auth_Challenges (sub_Authorizations sub)))),
          map (\<lambda>c. [(''record_type'', Str (ch_RecordType c)),
                     (''record_name'', Str (ch_RecordName c)),
                     (''record_value'', Str (hd (ch_Values c)))])
            (filter (\<lambda>c. ch_Type c = ''managed-dns'')
               (concat (map auth_Challenges (sub_Authorizations sub))))))
    \<and> ((\<exists>c \<in> set (concat (map auth_Challenges (sub_Authorizations sub))).
             ch_Type c = ''managed-dns'' \<and> ch_Values c = []) \<longrightarrow>
          (\<exists>diags. resourceFastlyTLSSubscriptionRead conn d = (Return diags, d, [CallGet (get_input d)])
             \<and> HasError diags))
    \<and> (outcome_of (resourceFastlyTLSSubscriptionRead conn d) = Return [] \<longrightarrow>
        managed_dns_challenges (d_attrs (data_of (resourceFastlyTLSSubscriptionRead conn d))) =
            map (\<lambda>c. [(''record_type'', Str (ch_RecordType c)),
                       (''record_name'', Str (ch_RecordName c)),
                       (''record_value'', Str (hd (ch_Values c)))])
              (filter (\<lambda>c. ch_Type c = ''managed-dns'')
                 (concat (map auth_Challenges (sub_Authorizations sub))))
        \<and> managed_http_challenges (d_attrs (data_of (resourceFastlyTLSSubscriptionRead conn d))) =
            map (\<lambda>c. [(''record_type'', Str (ch_RecordType c)),
                       (''record_name'', Str (ch_RecordName c)),
                       (''record_values'', Strs (ch_Values c))])
              (filter (\<lambda>c. ch_Type c \<noteq> ''managed-dns'')
                 (concat (map auth_Challenges (sub_Authorizations sub)))))
    \<and> (sub_Authorizations sub \<noteq> [] \<and>
        (\<forall>c \<in> set (concat (map auth_Challenges (sub_Authorizations sub))).
             ch_Type c = ''managed-dns'' \<longrightarrow> ch_Values c \<noteq> []) \<and>
        sub_CommonName sub \<noteq> None \<and> sub_Configuration sub \<noteq> None \<and>
        sub_CreatedAt sub \<noteq> None \<and> sub_UpdatedAt sub \<noteq> None \<and>
        (\<forall>t \<in> set (fst (ListTLSDomains conn (list_input sub))).
           \<forall>acts. dom_Activations t = Some acts \<longrightarrow>
             (\<forall>a \<in> set acts. act_Configuration a \<noteq> None)) \<longrightarrow>
        outcome_of (resourceFastlyTLSSubscriptionRead conn d) = Return [])"
proof -
  let ?bad = "\<exists>c \<in> set (concat (map auth_Challenges (sub_Authorizations sub))).
      ch_Type c = ''managed-dns'' \<and> ch_Values c = []"
  let ?dns = "map (\<lambda>c. [(''record_type'', Str (ch_RecordType c)),
                       (''record_name'', Str (ch_RecordName c)),
                       (''record_value'', Str (hd (ch_Values c)))])
              (filter (\<lambda>c. ch_Type c = ''managed-dns'')
                 (concat (map auth_Challenges (sub_Authorizations sub))))"
  let ?http = "map (\<lambda>c. [(''record_type'', Str (ch_RecordType c)),
                       (''record_name'', Str (ch_RecordName c)),
                       (''record_values'', Strs (ch_Values c))])
              (filter (\<lambda>c. ch_Type c \<noteq> ''managed-dns'')
                 (concat (map auth_Challenges (sub_Authorizations sub))))"
  let ?read = "resourceFastlyTLSSubscriptionRead conn d"
  have p1: "Read_authorizations (sub_Authorizations sub) ([], []) =
      (if ?bad
       then Inl (Errorf ''fastly API returned no record values for Managed DNS Challenges'')
       else Inr (?http, ?dns))"
  proof (cases ?bad)
    case True
    from Read_authorizations_Inl [OF True] True show ?thesis
      by (simp only: if_True)
  next
    case False
    then have ok: "\<forall>c \<in> set (concat (map auth_Challenges (sub_Authorizations sub))).
        ch_Type c = ''managed-dns'' \<longrightarrow> ch_Values c \<noteq> []"
      by blast
    from Read_authorizations_Inr [OF ok, of "[]" "[]"] False show ?thesis
      by (simp only: if_False append_Nil)
  qed
  have p2: "\<exists>diags. ?read = (Return diags, d, [CallGet (get_input d)]) \<and> HasError diags"
    if ?bad
    using that
    by (simp add: Read_payload [OF get err] Read_subscription_Errorf Errorf_def HasError_def)
  have p3: "managed_dns_challenges (d_attrs (data_of ?read)) = ?dns
      \<and> managed_http_challenges (d_attrs (data_of ?read)) = ?http"
    if ret: "outcome_of ?read = Return []"
  proof -
    from ret have ret': "outcome_of (Read_subscription conn sub d [CallGet (get_input d)]) = Return []"
      by (simp add: Read_payload [OF get err])
    note c = Read_subscription_Return_conv [OF ret']
    from c(3-7) obtain commonName configuration createdAt updatedAt d0 d1
      where "sub_CommonName sub = Some commonName" "sub_Configuration sub = Some configuration"
        "sub_CreatedAt sub = Some createdAt" "sub_UpdatedAt sub = Some updatedAt"
        "Read_activations (fst (ListTLSDomains conn (list_input sub))) d0 = Some d1"
      by blast
    from Read_subscription_Return [OF c(1) c(2) this, of d "[CallGet (get_input d)]"]
    show ?thesis
      by (auto simp: Read_payload [OF get err])
  qed
  have p4: "outcome_of ?read = Return []"
    if ok: "sub_Authorizations sub \<noteq> [] \<and>
        (\<forall>c \<in> set (concat (map auth_Challenges (sub_Authorizations sub))).
             ch_Type c = ''managed-dns'' \<longrightarrow> ch_Values c \<noteq> []) \<and>
        sub_CommonName sub \<noteq> None \<and> sub_Configuration sub \<noteq> None \<and>
        sub_CreatedAt sub \<noteq> None \<and> sub_UpdatedAt sub \<noteq> None \<and>
        (\<forall>t \<in> set (fst (ListTLSDomains conn (list_input sub))).
           \<forall>acts. dom_Activations t = Some acts \<longrightarrow>
             (\<forall>a \<in> set acts. act_Configuration a \<noteq> None))"
  proof -
    from ok obtain commonName configuration createdAt updatedAt
      where f: "sub_CommonName sub = Some commonName" "sub_Configuration sub = Some configuration"
        "sub_CreatedAt sub = Some createdAt" "sub_UpdatedAt sub = Some updatedAt"
      by auto
    from ok obtain d1 where
      a: "Read_activations (fst (ListTLSDomains conn (list_input sub))) d = Some d1"
      using Read_activations_no_panic [of "fst (ListTLSDomains conn (list_input sub))" d] by blast
    from ok have auths: "sub_Authorizations sub \<noteq> []"
      and vals: "\<forall>c \<in> set (concat (map auth_Challenges (sub_Authorizations sub))).
               ch_Type c = ''managed-dns'' \<longrightarrow> ch_Values c \<noteq> []"
      by blast+
    from Read_subscription_Return [OF auths vals f a, of d "[CallGet (get_input d)]"]
    show ?thesis
      by (auto simp: Read_payload [OF get err])
  qed
  from p1 p2 p3 p4 show ?thesis
    by blast
qed

text \<open>An instance of C3 on the example payloads.\<close>

theorem Read_classifies_challenges_witness:
  "outcome_of (resourceFastlyTLSSubscriptionRead (example_conn example_auths ([], None)) example_d) =
     Return []
   \<and> managed_dns_challenges (d_attrs (data_of (resourceFastlyTLSSubscriptionRead
        (example_conn example_auths ([], None)) example_d))) =
     [[(''record_type'', Str ''CNAME''),
       (''record_name'', Str ''_acme-challenge.example.com''),
       (''record_value'', Str ''one.fastly-validations.com'')]]
   \<and> managed_http_challenges (d_attrs (data_of (resourceFastlyTLSSubscriptionRead
        (example_conn example_auths ([], None)) example_d))) =
     [[(''record_type'', Str ''A''),
       (''record_name'', Str ''example.com''),
       (''record_values'', Strs [''151.101.2.132'', ''151.101.66.132''])]]
   \<and> managed_dns_challenges (d_attrs example_d) = []
   \<and> (\<exists>diags. resourceFastlyTLSSubscriptionRead
      (example_conn [\<lparr>auth_Challenges = [example_dns_challenge\<lparr>ch_Values := []\<rparr>]\<rparr>] ([], None))
      example_d =
        (Return diags, example_d,
         [CallGet \<lparr>get_ID = ''sub1'', get_Include = Some ''tls_authorizations''\<rparr>])
      \<and> HasError diags)"
proof -
  let ?sub = "example_subscription example_auths"
  let ?conn = "example_conn example_auths ([], None)"
  have get: "GetTLSSubscription ?conn (get_input example_d) = (Some ?sub, None)"
    by (simp add: example_defs)
  have err: "not_HTTPError None"
    by simp
  have complete: "sub_Authorizations ?sub \<noteq> [] \<and>
        (\<forall>c \<in> set (concat (map auth_Challenges (sub_Authorizations ?sub))).
             ch_Type c = ''managed-dns'' \<longrightarrow> ch_Values c \<noteq> []) \<and>
        sub_CommonName ?sub \<noteq> None \<and> sub_Configuration ?sub \<noteq> None \<and>
        sub_CreatedAt ?sub \<noteq> None \<and> sub_UpdatedAt ?sub \<noteq> None \<and>
        (\<forall>t \<in> set (fst (ListTLSDomains ?conn (list_input ?sub))).
           \<forall>acts. dom_Activations t = Some acts \<longrightarrow>
             (\<forall>a \<in> set acts. act_Configuration a \<noteq> None))"
    by (simp add: example_defs)
  note t = Read_classifies_challenges [OF get err]
  from t complete have ret: "outcome_of (resourceFastlyTLSSubscriptionRead ?conn example_d) = Return []"
    by blast
  with t have stored:
    "managed_dns_challenges (d_attrs (data_of (resourceFastlyTLSSubscriptionRead ?conn example_d))) =
       map (\<lambda>c. [(''record_type'', Str (ch_RecordType c)),
                  (''record_name'', Str (ch_RecordName c)),
                  (''record_value'', Str (hd (ch_Values c)))])
         (filter (\<lambda>c. ch_Type c = ''managed-dns'')
            (concat (map auth_Challenges (sub_Authorizations ?sub))))"
    "managed_http_challenges (d_attrs (data_of (resourceFastlyTLSSubscriptionRead ?conn example_d))) =
       map (\<lambda>c. [(''record_type'', Str (ch_RecordType c)),
                  (''record_name'', Str (ch_RecordName c)),
                  (''record_values'', Strs (ch_Values c))])
         (filter (\<lambda>c. ch_Type c \<noteq> ''managed-dns'')
            (concat (map auth_Challenges (sub_Authorizations ?sub))))"
    by blast+
  let ?auths0 = "[\<lparr>auth_Challenges = [example_dns_challenge\<lparr>ch_Values := []\<rparr>]\<rparr>]"
  have get0: "GetTLSSubscription (example_conn ?auths0 ([], None)) (get_input example_d) =
      (Some (example_subscription ?auths0), None)"
    by (simp add: example_defs)
  have bad: "\<exists>c \<in> set (concat (map auth_Challenges (sub_Authorizations (example_subscription ?auths0)))).
      ch_Type c = ''managed-dns'' \<and> ch_Values c = []"
    by (simp add: example_defs)
  from Read_classifies_challenges [OF get0 err] bad
  have fatal: "\<exists>diags. resourceFastlyTLSSubscriptionRead (example_conn ?auths0 ([], None)) example_d =
      (Return diags, example_d, [CallGet (get_input example_d)]) \<and> HasError diags"
    by blast
  have inp: "get_input example_d = \<lparr>get_ID = ''sub1'', get_Include = Some ''tls_authorizations''\<rparr>"
    by (simp add: example_defs)
  have init: "managed_dns_challenges (d_attrs example_d) = []"
    by (simp add: example_defs)
  from ret stored fatal init show ?thesis
    unfolding inp by (simp add: example_defs)
qed

text \<open>
  C9. Read indexes the first authorization without a check: on a payload with no
  authorization it panics (index out of range), after the one call that fetched the
  subscription, with the resource data untouched; it returns neither a diagnostic nor
  an empty map.
\<close>

theorem Read_panics_without_authorizations:
  assumes get: "GetTLSSubscription conn (get_input d) = (Some sub, err)"
    and err: "not_HTTPError err"
    and none: "sub_Authorizations sub = []"
  shows "resourceFastlyTLSSubscriptionRead conn d = (Panic, d, [CallGet (get_input d)])"
  by (simp add: Read_payload [OF get err] Read_subscription_Panic [OF none])

text \<open>An instance of C9 on the example payloads.\<close>

theorem Read_panics_without_authorizations_witness:
  "resourceFastlyTLSSubscriptionRead (example_conn [] ([], None))
      (example_data (example_attrs [''example.com''] ''example.com'')
                    (example_attrs [''example.com''] ''example.com'')) =
    (Panic,
     example_data (example_attrs [''example.com''] ''example.com'')
                  (example_attrs [''example.com''] ''example.com''),
     [CallGet \<lparr>get_ID = ''sub1'', get_Include = Some ''tls_authorizations''\<rparr>])"
  using Read_panics_without_authorizations
    [of "example_conn [] ([], None)"
        "example_data (example_attrs [''example.com''] ''example.com'')
                      (example_attrs [''example.com''] ''example.com'')"
        "example_subscription []" None]
  by (simp add: example_defs)

subsection \<open>The configuration that Read stores\<close>

lemma Read_Return_conv:
  assumes get: "GetTLSSubscription conn (get_input d) = (Some sub, err)"
    and err: "not_HTTPError err"
    and ret: "outcome_of (resourceFastlyTLSSubscriptionRead conn d) = Return []"
  shows "outcome_of (Read_subscription conn sub d [CallGet (get_input d)]) = Return []"
  using ret by (simp add: Read_payload [OF get err])

lemma Read_configuration_id:
  assumes get: "GetTLSSubscription conn (get_input d) = (Some sub, err)"
    and err: "not_HTTPError err"
    and ret: "outcome_of (resourceFastlyTLSSubscriptionRead conn d) = Return []"
  shows "\<exists>configuration. sub_Configuration sub = Some configuration \<and>
     Some (configuration_id (d_attrs (data_of (resourceFastlyTLSSubscriptionRead conn d)))) =
     (case List.find (\<lambda>t. dom_Activations t \<noteq> Some [])
             (fst (ListTLSDomains conn (list_input sub))) of
        None \<Rightarrow> Some configuration
      | Some t \<Rightarrow>
          (case dom_Activations t of
             None \<Rightarrow> Some configuration
           | Some acts \<Rightarrow> act_Configuration (hd acts)))"
proof -
  note c = Read_subscription_Return_conv [OF Read_Return_conv [OF get err ret]]
  from c(3-7) obtain commonName configuration createdAt updatedAt d0 d1
    where f: "sub_CommonName sub = Some commonName" "sub_Configuration sub = Some configuration"
      "sub_CreatedAt sub = Some createdAt" "sub_UpdatedAt sub = Some updatedAt"
      "Read_activations (fst (ListTLSDomains conn (list_input sub))) d0 = Some d1"
    by blast
  from Read_subscription_Return [OF c(1) c(2) f, of d "[CallGet (get_input d)]"] f(2)
  show ?thesis
    by (auto simp: Read_payload [OF get err])
qed

lemma find_first_split:
  "\<forall>p \<in> set pre. \<not> P p \<Longrightarrow> P t \<Longrightarrow> List.find P (pre @ t # rest) = Some t"
  by (induction pre) auto

text \<open>
  C1, as the code has it. When Read succeeds and, in the list that the domain-listing
  call returned (requested with the subscription's certificate ID as filter and sorted by
  activation creation time), every domain before the first domain with one or more
  activations has an activation list that is present and empty, the \<open>configuration_id\<close>
  stored in state is the configuration of the first activation of that domain, in place
  of the subscription's own configuration reference.
\<close>

theorem Read_configuration_of_first_activation:
  assumes get: "GetTLSSubscription conn (get_input d) = (Some sub, err)"
    and err: "not_HTTPError err"
    and ret: "outcome_of (resourceFastlyTLSSubscriptionRead conn d) = Return []"
    and listed: "fst (ListTLSDomains conn (list_input sub)) = pre @ tlsDomain # rest"
    and pre: "\<forall>p \<in> set pre. dom_Activations p = Some []"
    and first: "dom_Activations tlsDomain = Some (activation # activations)"
  shows "act_Configuration activation =
    Some (configuration_id (d_attrs (data_of (resourceFastlyTLSSubscriptionRead conn d))))"
proof -
  have "List.find (\<lambda>t. dom_Activations t \<noteq> Some []) (pre @ tlsDomain # rest) = Some tlsDomain"
    using pre first by (intro find_first_split) auto
  with Read_configuration_id [OF get err ret] show ?thesis
    by (auto simp: listed first)
qed

text \<open>An instance of C1 on the example payloads.\<close>

theorem Read_configuration_of_first_activation_witness:
  "outcome_of (resourceFastlyTLSSubscriptionRead
        (example_conn example_auths ([domain_empty, domain_active, domain_absent], None)) example_d) = Return []
   \<and> dom_Activations domain_empty = Some []
   \<and> configuration_id (d_attrs (data_of (resourceFastlyTLSSubscriptionRead
        (example_conn example_auths ([domain_empty, domain_active, domain_absent], None)) example_d))) =
      ''cfg-renewed''"
proof -
  let ?conn = "example_conn example_auths ([domain_empty, domain_active, domain_absent], None)"
  have get: "GetTLSSubscription ?conn (get_input example_d) =
      (Some (example_subscription example_auths), None)"
    by (simp add: example_defs domain_absent_def domain_empty_def domain_active_def)
  have err: "not_HTTPError None" by simp
  have ret: "outcome_of (resourceFastlyTLSSubscriptionRead ?conn example_d) = Return []"
    by (simp add: example_defs domain_absent_def domain_empty_def domain_active_def Read_defs)
  have listed: "fst (ListTLSDomains ?conn (list_input (example_subscription example_auths))) =
      [domain_empty] @ domain_active # [domain_absent]"
    by (simp add: example_defs domain_absent_def domain_empty_def domain_active_def)
  have pre: "\<forall>p \<in> set [domain_empty]. dom_Activations p = Some []"
    by (simp add: example_defs domain_absent_def domain_empty_def domain_active_def)
  have first: "dom_Activations domain_active =
      Some (\<lparr>act_Configuration = Some ''cfg-renewed''\<rparr> #
            [\<lparr>act_Configuration = Some ''cfg-later''\<rparr>])"
    by (simp add: example_defs domain_absent_def domain_empty_def domain_active_def)
  from Read_configuration_of_first_activation [OF get err ret listed pre first] ret pre
  show ?thesis by simp
qed

text \<open>
  C1 as stated fails on a list whose first domain has no activation list (\<^verbatim>\<open>nil\<close>):
  the loop stops there, and the configuration of the activated domain behind it is not
  stored; the state keeps the subscription's own configuration reference.
\<close>

theorem Read_configuration_absent_activations_counterexample:
  "fst (ListTLSDomains (example_conn example_auths ([domain_absent, domain_active], None))
          (list_input (example_subscription example_auths))) = [domain_absent, domain_active]
   \<and> dom_Activations domain_absent = None
   \<and> dom_Activations domain_active =
        Some [\<lparr>act_Configuration = Some ''cfg-renewed''\<rparr>,
              \<lparr>act_Configuration = Some ''cfg-later''\<rparr>]
   \<and> outcome_of (resourceFastlyTLSSubscriptionRead
        (example_conn example_auths ([domain_absent, domain_active], None)) example_d) = Return []
   \<and> configuration_id (d_attrs (data_of (resourceFastlyTLSSubscriptionRead
        (example_conn example_auths ([domain_absent, domain_active], None)) example_d))) = ''cfg-own''
   \<and> ''cfg-own'' \<noteq> ''cfg-renewed''"
  by (simp add: example_defs domain_absent_def domain_empty_def domain_active_def Read_defs)

text \<open>
  C6. On a payload that Read processes to its end (an authorization, a value for every
  challenge of type \<open>managed-dns\<close>, a common name, a configuration and the two
  timestamps), when no domain of the list that the domain-listing call returned has an
  activation (each activation list is absent or empty), Read returns without a
  diagnostic and the \<open>configuration_id\<close> stored in state is the subscription's own
  configuration reference, whatever it was before. The same holds for every other list
  of the same domains, so in particular for every order of them, and for every error
  that the listing call reports with it.
\<close>

theorem Read_configuration_without_activations:
  assumes get: "GetTLSSubscription conn (get_input d) = (Some sub, err)"
    and err: "not_HTTPError err"
    and auths: "sub_Authorizations sub \<noteq> []"
    and vals: "\<forall>c \<in> set (concat (map auth_Challenges (sub_Authorizations sub))).
                 ch_Type c = ''managed-dns'' \<longrightarrow> ch_Values c \<noteq> []"
    and cn: "sub_CommonName sub \<noteq> None"
    and cfg: "sub_Configuration sub = Some configuration"
    and ca: "sub_CreatedAt sub \<noteq> None"
    and ua: "sub_UpdatedAt sub \<noteq> None"
    and none: "\<forall>t \<in> set (fst (ListTLSDomains conn (list_input sub))).
                 dom_Activations t = None \<or> dom_Activations t = Some []"
  shows "outcome_of (resourceFastlyTLSSubscriptionRead conn d) = Return []
    \<and> configuration_id (d_attrs (data_of (resourceFastlyTLSSubscriptionRead conn d))) =
        configuration
    \<and> (\<forall>reordered e.
          set reordered = set (fst (ListTLSDomains conn (list_input sub))) \<longrightarrow>
          outcome_of (resourceFastlyTLSSubscriptionRead
            (conn\<lparr>ListTLSDomains := (\<lambda>_. (reordered, e))\<rparr>) d) = Return []
          \<and> configuration_id (d_attrs (data_of (resourceFastlyTLSSubscriptionRead
            (conn\<lparr>ListTLSDomains := (\<lambda>_. (reordered, e))\<rparr>) d))) = configuration)"
proof -
  from cn ca ua obtain commonName createdAt updatedAt
    where f: "sub_CommonName sub = Some commonName" "sub_CreatedAt sub = Some createdAt"
      "sub_UpdatedAt sub = Some updatedAt"
    by auto
  have key: "outcome_of (resourceFastlyTLSSubscriptionRead conn' d) = Return []
      \<and> configuration_id (d_attrs (data_of (resourceFastlyTLSSubscriptionRead conn' d))) =
          configuration"
    if get': "GetTLSSubscription conn' (get_input d) = (Some sub, err)"
      and none': "\<forall>t \<in> set (fst (ListTLSDomains conn' (list_input sub))).
                 dom_Activations t = None \<or> dom_Activations t = Some []"
    for conn'
  proof -
    let ?doms = "fst (ListTLSDomains conn' (list_input sub))"
    have stop: "(case List.find (\<lambda>t. dom_Activations t \<noteq> Some []) ?doms of
          None \<Rightarrow> Some configuration
        | Some t \<Rightarrow>
            (case dom_Activations t of
               None \<Rightarrow> Some configuration
             | Some acts \<Rightarrow> act_Configuration (hd acts))) = Some configuration"
    proof (cases "List.find (\<lambda>t. dom_Activations t \<noteq> Some []) ?doms")
      case None
      then show ?thesis by simp
    next
      case (Some t)
      then have "t \<in> set ?doms" "dom_Activations t \<noteq> Some []"
        by (auto simp: find_Some_iff)
      with none' have "dom_Activations t = None" by auto
      with Some show ?thesis by simp
    qed
    have "\<forall>t \<in> set ?doms. \<forall>acts. dom_Activations t = Some acts \<longrightarrow>
        (\<forall>a \<in> set acts. act_Configuration a \<noteq> None)"
    proof (intro ballI allI impI)
      fix t acts a
      assume "t \<in> set ?doms" and "dom_Activations t = Some acts" and a: "a \<in> set acts"
      with none' have "acts = []" by force
      with a show "act_Configuration a \<noteq> None" by simp
    qed
    then obtain d1 where a: "Read_activations ?doms d = Some d1"
      using Read_activations_no_panic [of ?doms d] by blast
    from Read_subscription_Return [OF auths vals f(1) cfg f(2) f(3) a, of d "[CallGet (get_input d)]"]
    show ?thesis
      by (auto simp: Read_payload [OF get' err] stop)
  qed
  have here: "outcome_of (resourceFastlyTLSSubscriptionRead conn d) = Return []
      \<and> configuration_id (d_attrs (data_of (resourceFastlyTLSSubscriptionRead conn d))) =
          configuration"
    by (rule key [OF get none])
  have there: "outcome_of (resourceFastlyTLSSubscriptionRead
            (conn\<lparr>ListTLSDomains := (\<lambda>_. (reordered, e))\<rparr>) d) = Return []
          \<and> configuration_id (d_attrs (data_of (resourceFastlyTLSSubscriptionRead
            (conn\<lparr>ListTLSDomains := (\<lambda>_. (reordered, e))\<rparr>) d))) = configuration"
    if same: "set reordered = set (fst (ListTLSDomains conn (list_input sub)))" for reordered e
  proof (rule key)
    show "GetTLSSubscription (conn\<lparr>ListTLSDomains := (\<lambda>_. (reordered, e))\<rparr>) (get_input d) =
        (Some sub, err)"
      using get by simp
    show "\<forall>t \<in> set (fst (ListTLSDomains (conn\<lparr>ListTLSDomains := (\<lambda>_. (reordered, e))\<rparr>)
        (list_input sub))). dom_Activations t = None \<or> dom_Activations t = Some []"
      using none same by simp
  qed
  from here there show ?thesis by blast
qed

text \<open>An instance of C6 on the example payloads.\<close>

theorem Read_configuration_without_activations_witness:
  "configuration_id (d_attrs stale_d) = ''cfg-stale''
   \<and> outcome_of (resourceFastlyTLSSubscriptionRead
        (example_conn example_auths ([domain_empty, domain_absent], None)) stale_d) = Return []
   \<and> configuration_id (d_attrs (data_of (resourceFastlyTLSSubscriptionRead
        (example_conn example_auths ([domain_empty, domain_absent], None)) stale_d))) = ''cfg-own''
   \<and> outcome_of (resourceFastlyTLSSubscriptionRead
        ((example_conn example_auths ([domain_empty, domain_absent], None))
           \<lparr>ListTLSDomains := (\<lambda>_. ([domain_absent, domain_empty], None))\<rparr>) stale_d) = Return []
   \<and> configuration_id (d_attrs (data_of (resourceFastlyTLSSubscriptionRead
        ((example_conn example_auths ([domain_empty, domain_absent], None))
           \<lparr>ListTLSDomains := (\<lambda>_. ([domain_absent, domain_empty], None))\<rparr>) stale_d))) = ''cfg-own''"
proof -
  let ?conn = "example_conn example_auths ([domain_empty, domain_absent], None)"
  let ?sub = "example_subscription example_auths"
  have get: "GetTLSSubscription ?conn (get_input stale_d) = (Some ?sub, None)"
    by (simp add: example_defs)
  have err: "not_HTTPError None" by simp
  have auths: "sub_Authorizations ?sub \<noteq> []"
    and vals: "\<forall>c \<in> set (concat (map auth_Challenges (sub_Authorizations ?sub))).
                 ch_Type c = ''managed-dns'' \<longrightarrow> ch_Values c \<noteq> []"
    and cn: "sub_CommonName ?sub \<noteq> None"
    and cfg: "sub_Configuration ?sub = Some ''cfg-own''"
    and ca: "sub_CreatedAt ?sub \<noteq> None"
    and ua: "sub_UpdatedAt ?sub \<noteq> None"
    by (simp_all add: example_defs)
  have none: "\<forall>t \<in> set (fst (ListTLSDomains ?conn (list_input ?sub))).
      dom_Activations t = None \<or> dom_Activations t = Some []"
    by (simp add: example_defs domain_absent_def domain_empty_def)
  have same: "set [domain_absent, domain_empty] = set (fst (ListTLSDomains ?conn (list_input ?sub)))"
    by (auto simp: example_defs)
  have stale: "configuration_id (d_attrs stale_d) = ''cfg-stale''"
    by (simp add: stale_d_def example_defs)
  note t = Read_configuration_without_activations [OF get err auths vals cn cfg ca ua none]
  from t same have "outcome_of (resourceFastlyTLSSubscriptionRead
        (?conn\<lparr>ListTLSDomains := (\<lambda>_. ([domain_absent, domain_empty], None))\<rparr>) stale_d) = Return []
      \<and> configuration_id (d_attrs (data_of (resourceFastlyTLSSubscriptionRead
        (?conn\<lparr>ListTLSDomains := (\<lambda>_. ([domain_absent, domain_empty], None))\<rparr>) stale_d))) = ''cfg-own''"
    by blast
  with t stale show ?thesis
    by blast
qed

subsection \<open>Create, Update, Delete and the remote calls\<close>

lemma HasChanges_changed: "HasChanges [''domains'', ''common_name''] d = changed d"
  by (simp add: HasChanges_def HasChange_def)

lemma Read_subscription_calls:
  "calls_of (Read_subscription conn sub d calls) = calls \<or>
   calls_of (Read_subscription conn sub d calls) = calls @ [CallList (list_input sub)]"
proof -
  have cert: "(if 0 < length (sub_Certificates sub) then sub_Certificates sub ! 0 else '''') =
      (if sub_Certificates sub = [] then '''' else hd (sub_Certificates sub))"
    by (cases "sub_Certificates sub") auto
  show ?thesis
    unfolding Read_subscription_def Let_def cert
    by (simp split: sum.split list.split prod.split option.split)
qed

lemma Read_calls:
  "\<forall>call \<in> set (calls_of (resourceFastlyTLSSubscriptionRead conn d)).
     call = CallGet (get_input d) \<or> (\<exists>input. call = CallList input)"
proof (cases "GetTLSSubscription conn (get_input d)")
  case (Pair subscription err)
  show ?thesis
  proof (cases "\<exists>sub. subscription = Some sub \<and> not_HTTPError err")
    case True
    then obtain sub where s: "subscription = Some sub" and e: "not_HTTPError err" by blast
    from Read_subscription_calls [of conn sub d "[CallGet (get_input d)]"]
    show ?thesis
      by (auto simp: Read_payload [OF Pair [unfolded s] e])
  next
    case False
    then show ?thesis
      using Pair
      by (auto simp: resourceFastlyTLSSubscriptionRead_def Let_def
          split: option.splits api_error.splits if_splits)
  qed
qed

lemma Read_no_update: "CallUpdate u \<notin> set (calls_of (resourceFastlyTLSSubscriptionRead conn d))"
  using Read_calls [of conn d] by auto

lemma Update_unchanged:
  "\<not> changed d \<Longrightarrow> resourceFastlyTLSSubscriptionUpdate conn d = resourceFastlyTLSSubscriptionRead conn d"
  by (simp add: resourceFastlyTLSSubscriptionUpdate_def HasChanges_changed)

lemma Update_failed:
  "changed d \<Longrightarrow> snd (UpdateTLSSubscription conn (update_input d)) = Some e \<Longrightarrow>
   resourceFastlyTLSSubscriptionUpdate conn d =
     (Return (FromErr (Some e)), d, [CallUpdate (update_input d)])"
  by (cases "UpdateTLSSubscription conn (update_input d)")
    (simp add: resourceFastlyTLSSubscriptionUpdate_def HasChanges_changed Let_def split: prod.splits)

lemma Update_succeeded:
  "changed d \<Longrightarrow> snd (UpdateTLSSubscription conn (update_input d)) = None \<Longrightarrow>
   resourceFastlyTLSSubscriptionUpdate conn d =
     (outcome_of (resourceFastlyTLSSubscriptionRead conn d),
      data_of (resourceFastlyTLSSubscriptionRead conn d),
      CallUpdate (update_input d) # calls_of (resourceFastlyTLSSubscriptionRead conn d))"
  by (cases "UpdateTLSSubscription conn (update_input d)")
    (simp add: resourceFastlyTLSSubscriptionUpdate_def HasChanges_changed Let_def split: prod.splits)

text \<open>
  C4, as the code has it. Update issues the remote update call if and only if the domain
  set or the common name of the plan differs from the last-read state. The request is
  then the first call and carries the whole domain set, the common name and the
  configuration ID together. When nothing differs, Update is Read; when the update call
  succeeds, Update goes on with Read; when the update call fails, Update returns the
  error as a diagnostic and performs no Read.
\<close>

theorem Update_calls_remote_iff_changed:
  "((\<exists>u. CallUpdate u \<in> set (calls_of (resourceFastlyTLSSubscriptionUpdate conn d))) \<longleftrightarrow> changed d)
   \<and> (changed d \<longrightarrow>
        (\<exists>rest. calls_of (resourceFastlyTLSSubscriptionUpdate conn d) =
           CallUpdate \<lparr>update_ID = Id d,
                       update_Force = force_update (d_attrs d),
                       update_CommonName = common_name (d_attrs d),
                       update_Domains = domains (d_attrs d),
                       update_Configuration = configuration_id (d_attrs d)\<rparr> # rest))
   \<and> (\<not> changed d \<longrightarrow>
        resourceFastlyTLSSubscriptionUpdate conn d = resourceFastlyTLSSubscriptionRead conn d)
   \<and> (changed d \<and> snd (UpdateTLSSubscription conn (update_input d)) = None \<longrightarrow>
        resourceFastlyTLSSubscriptionUpdate conn d =
          (outcome_of (resourceFastlyTLSSubscriptionRead conn d),
           data_of (resourceFastlyTLSSubscriptionRead conn d),
           CallUpdate (update_input d) # calls_of (resourceFastlyTLSSubscriptionRead conn d)))
   \<and> (\<forall>e. changed d \<and> snd (UpdateTLSSubscription conn (update_input d)) = Some e \<longrightarrow>
        resourceFastlyTLSSubscriptionUpdate conn d =
          (Return (FromErr (Some e)), d, [CallUpdate (update_input d)]))"
proof -
  have rest: "\<exists>rest. calls_of (resourceFastlyTLSSubscriptionUpdate conn d) =
      CallUpdate (update_input d) # rest" if c: "changed d"
  proof (cases "snd (UpdateTLSSubscription conn (update_input d))")
    case None
    then show ?thesis by (simp add: Update_succeeded [OF c])
  next
    case (Some e)
    then show ?thesis by (simp add: Update_failed [OF c])
  qed
  have iff: "(\<exists>u. CallUpdate u \<in> set (calls_of (resourceFastlyTLSSubscriptionUpdate conn d))) \<longleftrightarrow> changed d"
  proof
    assume "\<exists>u. CallUpdate u \<in> set (calls_of (resourceFastlyTLSSubscriptionUpdate conn d))"
    then show "changed d"
      using Update_unchanged [of d conn] Read_no_update [of _ conn d] by metis
  next
    assume "changed d"
    from rest [OF this] show "\<exists>u. CallUpdate u \<in> set (calls_of (resourceFastlyTLSSubscriptionUpdate conn d))"
      by (metis list.set_intros(1))
  qed
  from iff rest Update_unchanged Update_succeeded Update_failed show ?thesis
    by blast
qed

text \<open>An instance of C4 on the example payloads.\<close>

theorem Update_calls_remote_iff_changed_witness:
  "set (domains (d_state changed_d)) \<noteq> set (domains (d_plan changed_d))
   \<and> calls_of (resourceFastlyTLSSubscriptionUpdate (example_conn example_auths ([], None)) changed_d) =
       [CallUpdate \<lparr>update_ID = ''sub1'', update_Force = False,
                    update_CommonName = ''example.com'',
                    update_Domains = [''example.com'', ''www.example.com''],
                    update_Configuration = ''cfg-own''\<rparr>,
        CallGet \<lparr>get_ID = ''sub1'', get_Include = Some ''tls_authorizations''\<rparr>,
        CallList \<lparr>list_FilterTLSCertificateID = ''cert1'', list_Include = ''tls_activations'',
                  list_Sort = ''tls_activations.created_at''\<rparr>]
   \<and> set (domains (d_state example_d)) = set (domains (d_plan example_d))
   \<and> common_name (d_state example_d) = common_name (d_plan example_d)
   \<and> resourceFastlyTLSSubscriptionUpdate (example_conn example_auths ([], None)) example_d =
       resourceFastlyTLSSubscriptionRead (example_conn example_auths ([], None)) example_d"
proof -
  have c: "changed changed_d"
    by (simp add: example_defs)
  have ok: "snd (UpdateTLSSubscription (example_conn example_auths ([], None)) (update_input changed_d)) = None"
    by (simp add: example_defs)
  have rd: "calls_of (resourceFastlyTLSSubscriptionRead (example_conn example_auths ([], None)) changed_d) =
      [CallGet \<lparr>get_ID = ''sub1'', get_Include = Some ''tls_authorizations''\<rparr>,
       CallList \<lparr>list_FilterTLSCertificateID = ''cert1'', list_Include = ''tls_activations'',
                 list_Sort = ''tls_activations.created_at''\<rparr>]"
    by (simp add: example_defs Read_defs)
  have inp: "update_input changed_d =
      \<lparr>update_ID = ''sub1'', update_Force = False, update_CommonName = ''example.com'',
       update_Domains = [''example.com'', ''www.example.com''],
       update_Configuration = ''cfg-own''\<rparr>"
    by (simp add: example_defs)
  have u: "\<not> changed example_d"
    by (simp add: example_defs)
  have c': "set (domains (d_state changed_d)) \<noteq> set (domains (d_plan changed_d))"
    by (simp add: example_defs)
  have u': "set (domains (d_state example_d)) = set (domains (d_plan example_d))
      \<and> common_name (d_state example_d) = common_name (d_plan example_d)"
    by (simp add: example_defs)
  from Update_calls_remote_iff_changed [of "example_conn example_auths ([], None)" changed_d]
    Update_calls_remote_iff_changed [of "example_conn example_auths ([], None)" example_d]
    c ok u
  have "calls_of (resourceFastlyTLSSubscriptionUpdate (example_conn example_auths ([], None)) changed_d) =
      CallUpdate (update_input changed_d) #
      calls_of (resourceFastlyTLSSubscriptionRead (example_conn example_auths ([], None)) changed_d)"
    and "resourceFastlyTLSSubscriptionUpdate (example_conn example_auths ([], None)) example_d =
      resourceFastlyTLSSubscriptionRead (example_conn example_auths ([], None)) example_d"
    by simp_all
  with c' u' show ?thesis
    by (simp only: rd inp simp_thms)
qed

text \<open>
  C4 as stated fails when the update call fails: Update returns after that one call, and
  the fetch that Read starts with is not among its calls.
\<close>

theorem Update_failed_call_skips_Read_counterexample:
  "set (domains (d_state (example_data (example_attrs [''example.com''] ''example.com'')
          (example_attrs [''example.com'', ''www.example.com''] ''example.com'')))) \<noteq>
   set (domains (d_plan (example_data (example_attrs [''example.com''] ''example.com'')
          (example_attrs [''example.com'', ''www.example.com''] ''example.com''))))
   \<and> resourceFastlyTLSSubscriptionUpdate failing_conn
        (example_data (example_attrs [''example.com''] ''example.com'')
                      (example_attrs [''example.com'', ''www.example.com''] ''example.com'')) =
      (Return [\<lparr>Severity = Error, Summary = ''409 Conflict''\<rparr>],
       example_data (example_attrs [''example.com''] ''example.com'')
                    (example_attrs [''example.com'', ''www.example.com''] ''example.com''),
       [CallUpdate \<lparr>update_ID = ''sub1'', update_Force = False,
                    update_CommonName = ''example.com'',
                    update_Domains = [''example.com'', ''www.example.com''],
                    update_Configuration = ''cfg-own''\<rparr>])
   \<and> calls_of (resourceFastlyTLSSubscriptionRead failing_conn
        (example_data (example_attrs [''example.com''] ''example.com'')
                      (example_attrs [''example.com'', ''www.example.com''] ''example.com''))) =
      [CallGet \<lparr>get_ID = ''sub1'', get_Include = Some ''tls_authorizations''\<rparr>]"
  by (simp add: example_defs Read_defs resourceFastlyTLSSubscriptionUpdate_def HasChanges_def
      HasChange_def FromErr_def)

lemma Create_rejected:
  "common_name (d_attrs d) \<noteq> '''' \<Longrightarrow> common_name (d_attrs d) \<notin> set (domains (d_attrs d)) \<Longrightarrow>
   \<exists>diags. resourceFastlyTLSSubscriptionCreate conn d = (Return diags, d, []) \<and> HasError diags"
  by (simp add: resourceFastlyTLSSubscriptionCreate_def GetOk_def contains_def Let_def
      Errorf_def HasError_def)

lemma Create_issued:
  assumes "common_name (d_attrs d) = '''' \<or> common_name (d_attrs d) \<in> set (domains (d_attrs d))"
  shows "\<exists>rest. calls_of (resourceFastlyTLSSubscriptionCreate conn d) = CallCreate (create_input d) # rest"
proof (cases "CreateTLSSubscription conn (create_input d)")
  case (Pair subscription err)
  with assms show ?thesis
    by (auto simp: resourceFastlyTLSSubscriptionCreate_def GetOk_def contains_def Let_def
        split: option.splits prod.splits)
qed

lemma Create_failed:
  assumes "common_name (d_attrs d) = '''' \<or> common_name (d_attrs d) \<in> set (domains (d_attrs d))"
    and "snd (CreateTLSSubscription conn (create_input d)) = Some e"
  shows "resourceFastlyTLSSubscriptionCreate conn d =
    (Return (FromErr (Some e)), d, [CallCreate (create_input d)])"
proof (cases "CreateTLSSubscription conn (create_input d)")
  case (Pair subscription err)
  with assms show ?thesis
    by (auto simp: resourceFastlyTLSSubscriptionCreate_def GetOk_def contains_def Let_def
        split: option.splits prod.splits)
qed

text \<open>
  C7. When a common name is supplied (not empty) and is not in the domain set, Create
  returns a fatal diagnostic, has issued no remote call and has left the resource data
  as they were. When the common name is empty or in the domain set, the first remote
  call of Create is the create call, with the certificate authority, the configuration
  (when supplied), the domains and the common name (when supplied).
\<close>

theorem Create_checks_common_name_first:
  "(common_name (d_attrs d) \<noteq> '''' \<and> common_name (d_attrs d) \<notin> set (domains (d_attrs d)) \<longrightarrow>
      (\<exists>diags. resourceFastlyTLSSubscriptionCreate conn d = (Return diags, d, []) \<and> HasError diags))
   \<and> (common_name (d_attrs d) = '''' \<or> common_name (d_attrs d) \<in> set (domains (d_attrs d)) \<longrightarrow>
      (\<exists>rest. calls_of (resourceFastlyTLSSubscriptionCreate conn d) =
         CallCreate \<lparr>create_CertificateAuthority = certificate_authority (d_attrs d),
                     create_Configuration =
                       (if configuration_id (d_attrs d) \<noteq> ''''
                        then Some (configuration_id (d_attrs d)) else None),
                     create_Domains = domains (d_attrs d),
                     create_CommonName =
                       (if common_name (d_attrs d) \<noteq> ''''
                        then Some (common_name (d_attrs d)) else None)\<rparr> # rest))"
  using Create_rejected [of d conn] Create_issued [of d conn] by blast

text \<open>An instance of C7 on the example payloads.\<close>

theorem Create_checks_common_name_first_witness:
  "common_name (d_attrs foreign_name_d) \<noteq> ''''
   \<and> common_name (d_attrs foreign_name_d) \<notin> set (domains (d_attrs foreign_name_d))
   \<and> calls_of (resourceFastlyTLSSubscriptionCreate (example_conn example_auths ([], None)) foreign_name_d) = []
   \<and> (\<exists>diags. outcome_of (resourceFastlyTLSSubscriptionCreate (example_conn example_auths ([], None))
         foreign_name_d) = Return diags \<and> HasError diags)
   \<and> common_name (d_attrs changed_d) \<in> set (domains (d_attrs changed_d))
   \<and> hd (calls_of (resourceFastlyTLSSubscriptionCreate (example_conn example_auths ([], None)) changed_d)) =
       CallCreate \<lparr>create_CertificateAuthority = ''lets-encrypt'',
                   create_Configuration = Some ''cfg-own'',
                   create_Domains = [''example.com'', ''www.example.com''],
                   create_CommonName = Some ''example.com''\<rparr>"
proof -
  have a: "common_name (d_attrs foreign_name_d) \<noteq> ''''
      \<and> common_name (d_attrs foreign_name_d) \<notin> set (domains (d_attrs foreign_name_d))"
    by (simp add: example_defs foreign_name_d_def)
  have b: "common_name (d_attrs changed_d) = '''' \<or>
      common_name (d_attrs changed_d) \<in> set (domains (d_attrs changed_d))"
    by (simp add: example_defs foreign_name_d_def)
  have inp: "create_input changed_d =
      \<lparr>create_CertificateAuthority = ''lets-encrypt'', create_Configuration = Some ''cfg-own'',
       create_Domains = [''example.com'', ''www.example.com''],
       create_CommonName = Some ''example.com''\<rparr>"
    by (simp add: example_defs foreign_name_d_def)
  have b': "common_name (d_attrs changed_d) \<in> set (domains (d_attrs changed_d))"
    by (simp add: example_defs foreign_name_d_def)
  from Create_checks_common_name_first [of foreign_name_d "example_conn example_auths ([], None)"]
    Create_checks_common_name_first [of changed_d "example_conn example_auths ([], None)"]
    a b
  have "(\<exists>diags. resourceFastlyTLSSubscriptionCreate (example_conn example_auths ([], None)) foreign_name_d =
            (Return diags, foreign_name_d, []) \<and> HasError diags)"
    and "\<exists>rest. calls_of (resourceFastlyTLSSubscriptionCreate (example_conn example_auths ([], None)) changed_d) =
         CallCreate (create_input changed_d) # rest"
    by blast+
  with a b' show ?thesis
    unfolding inp by auto
qed

lemma Read_HTTP_failure:
  "GetTLSSubscription conn (get_input d) = (subscription, Some (HTTPError False msg)) \<Longrightarrow>
   resourceFastlyTLSSubscriptionRead conn d =
     (Return (FromErr (Some (HTTPError False msg))), d, [CallGet (get_input d)])"
  by (simp add: resourceFastlyTLSSubscriptionRead_def)

lemma Read_subscription_ignores_list_error:
  "Read_subscription (conn\<lparr>ListTLSDomains := (\<lambda>input. (fst (ListTLSDomains conn input), e))\<rparr>) sub d calls =
   Read_subscription conn sub d calls"
  unfolding Read_subscription_def Let_def
  by (simp split: sum.splits list.splits prod.splits option.splits)

lemma Read_ignores_list_error:
  "resourceFastlyTLSSubscriptionRead
     (conn\<lparr>ListTLSDomains := (\<lambda>input. (fst (ListTLSDomains conn input), e))\<rparr>) d =
   resourceFastlyTLSSubscriptionRead conn d"
  by (simp add: resourceFastlyTLSSubscriptionRead_def Let_def Read_subscription_ignores_list_error
      split: prod.splits option.splits api_error.splits)

lemma Delete_failed:
  "DeleteTLSSubscription conn (delete_input d) = Some e \<Longrightarrow>
   resourceFastlyTLSSubscriptionDelete conn d =
     (Return (FromErr (Some e)), d, [CallDelete (delete_input d)])"
  by (simp add: resourceFastlyTLSSubscriptionDelete_def)

lemma HasError_FromErr: "HasError (FromErr (Some e))"
  by (simp add: HasError_def FromErr_def)

text \<open>
  C2, as the code has it. A failure of the create, update or delete call, and a failure
  of the fetch of the subscription in Read that is an HTTP error other than not-found, is
  returned as a fatal diagnostic, and the handler stops there: no further remote call,
  the resource data as they were. A failure of the domain-listing call in Read is
  discarded: Read does the same as when the call reports no error with the same list.
\<close>

theorem remote_failures_propagate_except_listing:
  "((common_name (d_attrs d) = '''' \<or> common_name (d_attrs d) \<in> set (domains (d_attrs d))) \<and>
      snd (CreateTLSSubscription conn (create_input d)) = Some e \<longrightarrow>
      resourceFastlyTLSSubscriptionCreate conn d =
        (Return (FromErr (Some e)), d, [CallCreate (create_input d)]))
   \<and> (changed d \<and> snd (UpdateTLSSubscription conn (update_input d)) = Some e \<longrightarrow>
      resourceFastlyTLSSubscriptionUpdate conn d =
        (Return (FromErr (Some e)), d, [CallUpdate (update_input d)]))
   \<and> (DeleteTLSSubscription conn (delete_input d) = Some e \<longrightarrow>
      resourceFastlyTLSSubscriptionDelete conn d =
        (Return (FromErr (Some e)), d, [CallDelete (delete_input d)]))
   \<and> (snd (GetTLSSubscription conn (get_input d)) = Some (HTTPError False msg) \<longrightarrow>
      resourceFastlyTLSSubscriptionRead conn d =
        (Return (FromErr (Some (HTTPError False msg))), d, [CallGet (get_input d)]))
   \<and> HasError (FromErr (Some e))
   \<and> resourceFastlyTLSSubscriptionRead
        (conn\<lparr>ListTLSDomains := (\<lambda>input. (fst (ListTLSDomains conn input), Some e))\<rparr>) d =
      resourceFastlyTLSSubscriptionRead
        (conn\<lparr>ListTLSDomains := (\<lambda>input. (fst (ListTLSDomains conn input), None))\<rparr>) d"
proof -
  have rd: "snd (GetTLSSubscription conn (get_input d)) = Some (HTTPError False msg) \<Longrightarrow>
      resourceFastlyTLSSubscriptionRead conn d =
        (Return (FromErr (Some (HTTPError False msg))), d, [CallGet (get_input d)])"
    using Read_HTTP_failure [of conn d "fst (GetTLSSubscription conn (get_input d))" msg]
    by (cases "GetTLSSubscription conn (get_input d)") simp
  show ?thesis
    using Create_failed [of d conn e] Update_failed [of d conn e] Delete_failed [of conn d e] rd
      HasError_FromErr [of e]
    by (simp only: Read_ignores_list_error) blast
qed

text \<open>An instance of C2 on the example payloads.\<close>

theorem remote_failures_propagate_except_listing_witness:
  "resourceFastlyTLSSubscriptionCreate failing_conn changed_d =
     (Return [\<lparr>Severity = Error, Summary = ''400 Bad Request''\<rparr>], changed_d,
      [CallCreate (create_input changed_d)])
   \<and> resourceFastlyTLSSubscriptionUpdate failing_conn changed_d =
     (Return [\<lparr>Severity = Error, Summary = ''409 Conflict''\<rparr>], changed_d,
      [CallUpdate (update_input changed_d)])
   \<and> resourceFastlyTLSSubscriptionDelete failing_conn changed_d =
     (Return [\<lparr>Severity = Error, Summary = ''connection refused''\<rparr>], changed_d,
      [CallDelete (delete_input changed_d)])
   \<and> resourceFastlyTLSSubscriptionRead failing_conn changed_d =
     (Return [\<lparr>Severity = Error, Summary = ''500 Internal Server Error''\<rparr>], changed_d,
      [CallGet (get_input changed_d)])"
proof -
  have cn: "common_name (d_attrs changed_d) = '''' \<or>
      common_name (d_attrs changed_d) \<in> set (domains (d_attrs changed_d))"
    and ch: "changed changed_d"
    by (simp_all add: example_defs)
  have c: "snd (CreateTLSSubscription failing_conn (create_input changed_d)) =
      Some (HTTPError False ''400 Bad Request'')"
    and u: "snd (UpdateTLSSubscription failing_conn (update_input changed_d)) =
      Some (HTTPError False ''409 Conflict'')"
    and dl: "DeleteTLSSubscription failing_conn (delete_input changed_d) =
      Some (OtherError ''connection refused'')"
    and g: "snd (GetTLSSubscription failing_conn (get_input changed_d)) =
      Some (HTTPError False ''500 Internal Server Error'')"
    by (simp_all add: failing_conn_def)
  from remote_failures_propagate_except_listing
      [of changed_d failing_conn "HTTPError False ''400 Bad Request''" "''500 Internal Server Error''"]
    remote_failures_propagate_except_listing
      [of changed_d failing_conn "HTTPError False ''409 Conflict''" "''500 Internal Server Error''"]
    remote_failures_propagate_except_listing
      [of changed_d failing_conn "OtherError ''connection refused''" "''500 Internal Server Error''"]
    cn ch c u dl g
  show ?thesis
    by (simp add: FromErr_def)
qed

text \<open>
  C2 as stated fails for the domain-listing call: when it fails, Read still returns no
  diagnostic at all, with the state it stores when the call succeeds with the same list.
\<close>

theorem Read_discards_listing_failure_counterexample:
  "ListTLSDomains (example_conn example_auths ([], Some (HTTPError False ''503 Service Unavailable'')))
      \<lparr>list_FilterTLSCertificateID = ''cert1'', list_Include = ''tls_activations'',
       list_Sort = ''tls_activations.created_at''\<rparr> =
     ([], Some (HTTPError False ''503 Service Unavailable''))
   \<and> resourceFastlyTLSSubscriptionRead
        (example_conn example_auths ([], Some (HTTPError False ''503 Service Unavailable''))) example_d =
      (Return [],
       data_of (resourceFastlyTLSSubscriptionRead (example_conn example_auths ([], None)) example_d),
       [CallGet \<lparr>get_ID = ''sub1'', get_Include = Some ''tls_authorizations''\<rparr>,
        CallList \<lparr>list_FilterTLSCertificateID = ''cert1'', list_Include = ''tls_activations'',
                  list_Sort = ''tls_activations.created_at''\<rparr>])
   \<and> \<not> HasError []"
  by (simp add: example_defs Read_defs HasError_def)

subsection \<open>The lower case of a string\<close>

lemma byte_roundtrip:
  "0 \<le> x \<Longrightarrow> x < 256 \<Longrightarrow> (of_char (char_of (x :: int)) :: int) = x"
  by (simp add: of_char_of)

lemma mod_add_const:
  "0 \<le> x \<Longrightarrow> x < n \<Longrightarrow> (n * k + x) mod n = (x :: int)"
  by simp

lemma Decode1:
  assumes "0 \<le> b0" "b0 < 0x80"
  shows "DecodeRuneInString (char_of b0 # t) = (b0, 1)"
  using assms by (simp add: byte_roundtrip)

lemma Decode2:
  assumes "0xC2 \<le> b0" "b0 \<le> 0xDF" "0x80 \<le> b1" "b1 \<le> 0xBF"
  shows "DecodeRuneInString (char_of b0 # char_of b1 # t) = ((b0 mod 32) * 64 + b1 mod 64, 2)"
  using assms by (simp add: byte_roundtrip Let_def)

lemma Decode3:
  assumes "0xE0 \<le> b0" "b0 \<le> 0xEF" "0x80 \<le> b1" "b1 \<le> 0xBF" "0x80 \<le> b2" "b2 \<le> 0xBF"
    and "b0 = 0xE0 \<Longrightarrow> 0xA0 \<le> b1" and "b0 = 0xED \<Longrightarrow> b1 \<le> 0x9F"
  shows "DecodeRuneInString (char_of b0 # char_of b1 # char_of b2 # t) =
           ((b0 mod 16) * 4096 + (b1 mod 64) * 64 + b2 mod 64, 3)"
  using assms by (auto simp add: byte_roundtrip Let_def)

lemma Decode4:
  assumes "0xF0 \<le> b0" "b0 \<le> 0xF4" "0x80 \<le> b1" "b1 \<le> 0xBF" "0x80 \<le> b2" "b2 \<le> 0xBF"
    "0x80 \<le> b3" "b3 \<le> 0xBF"
    and "b0 = 0xF0 \<Longrightarrow> 0x90 \<le> b1" and "b0 = 0xF4 \<Longrightarrow> b1 \<le> 0x8F"
  shows "DecodeRuneInString (char_of b0 # char_of b1 # char_of b2 # char_of b3 # t) =
           ((b0 mod 8) * 262144 + (b1 mod 64) * 4096 + (b2 mod 64) * 64 + b3 mod 64, 4)"
  using assms by (auto simp add: byte_roundtrip Let_def)

lemma split64: "(r :: int) = (r div 64) * 64 + r mod 64"
  by simp

lemma div4096: "(r :: int) div 4096 = r div 64 div 64"
  using zdiv_zmult2_eq [of 64 r 64] by simp

lemma div262144: "(r :: int) div 262144 = r div 64 div 64 div 64"
  using zdiv_zmult2_eq [of 64 "r div 64" 64] zdiv_zmult2_eq [of 64 r 4096] div4096 [of r]
  by simp

lemma decode_enc1:
  assumes "0 \<le> r" "r \<le> 0x7F"
  shows "DecodeRuneInString (AppendRune r @ t) = (r, 1)"
  using assms Decode1 [of r t] by (simp add: AppendRune_def)

lemma decode_enc2:
  assumes "0x80 \<le> r" "r \<le> 0x7FF"
  shows "DecodeRuneInString (AppendRune r @ t) = (r, 2)"
proof -
  define q where "q = r div 64"
  define m where "m = r mod 64"
  have r: "r = q * 64 + m"
    by (simp add: q_def m_def)
  have m: "0 \<le> m" "m \<le> 63"
    by (simp_all add: m_def)
  have q: "2 \<le> q" "q \<le> 31"
    using assms r m by linarith+
  have e0: "(192 + q) mod 32 = q"
    using mod_add_const [of q 32 6] q by simp
  have e1: "(128 + m) mod 64 = m"
    using mod_add_const [of m 64 2] m by simp
  have "DecodeRuneInString (char_of (192 + q) # char_of (128 + m) # t) =
          (((192 + q) mod 32) * 64 + (128 + m) mod 64, 2)"
    using q m by (intro Decode2) linarith+
  then have "DecodeRuneInString (char_of (192 + q) # char_of (128 + m) # t) = (r, 2)"
    by (simp only: e0 e1 r)
  then show ?thesis
    using assms by (simp add: AppendRune_def q_def m_def)
qed

lemma decode_enc3:
  assumes "0x800 \<le> r" "r \<le> 0xFFFF" "\<not> (0xD800 \<le> r \<and> r \<le> 0xDFFF)"
  shows "DecodeRuneInString (AppendRune r @ t) = (r, 3)"
proof -
  define q0 where "q0 = r div 64"
  define m0 where "m0 = r mod 64"
  define q1 where "q1 = q0 div 64"
  define m1 where "m1 = q0 mod 64"
  have r: "r = q0 * 64 + m0"
    by (simp add: q0_def m0_def)
  have q0: "q0 = q1 * 64 + m1"
    by (simp add: q1_def m1_def)
  have m0: "0 \<le> m0" "m0 \<le> 63"
    by (simp_all add: m0_def)
  have m1: "0 \<le> m1" "m1 \<le> 63"
    by (simp_all add: m1_def)
  have q1: "0 \<le> q1" "q1 \<le> 15"
    using assms r q0 m0 m1 by linarith+
  have lo: "224 + q1 = 224 \<Longrightarrow> 160 \<le> 128 + m1"
    using assms r q0 m0 m1 by linarith
  have hi: "224 + q1 = 237 \<Longrightarrow> 128 + m1 \<le> 159"
    using assms r q0 m0 m1 by linarith
  have e0: "(224 + q1) mod 16 = q1"
    using mod_add_const [of q1 16 14] q1 by simp
  have e1: "(128 + m1) mod 64 = m1"
    using mod_add_const [of m1 64 2] m1 by simp
  have e2: "(128 + m0) mod 64 = m0"
    using mod_add_const [of m0 64 2] m0 by simp
  have "DecodeRuneInString (char_of (224 + q1) # char_of (128 + m1) # char_of (128 + m0) # t) =
          (((224 + q1) mod 16) * 4096 + ((128 + m1) mod 64) * 64 + (128 + m0) mod 64, 3)"
    using q1 m1 m0 lo hi by (intro Decode3) linarith+
  moreover have "q1 * 4096 + m1 * 64 + m0 = r"
    using r q0 by linarith
  ultimately have
    "DecodeRuneInString (char_of (224 + q1) # char_of (128 + m1) # char_of (128 + m0) # t) = (r, 3)"
    by (simp only: e0 e1 e2)
  moreover have "r div 4096 = q1"
    by (simp add: div4096 q1_def q0_def)
  ultimately show ?thesis
    using assms by (simp add: AppendRune_def q0_def m0_def m1_def)
qed

lemma decode_enc4:
  assumes "0x10000 \<le> r" "r \<le> 0x10FFFF"
  shows "DecodeRuneInString (AppendRune r @ t) = (r, 4)"
proof -
  define q0 where "q0 = r div 64"
  define m0 where "m0 = r mod 64"
  define q1 where "q1 = q0 div 64"
  define m1 where "m1 = q0 mod 64"
  define q2 where "q2 = q1 div 64"
  define m2 where "m2 = q1 mod 64"
  have r: "r = q0 * 64 + m0"
    by (simp add: q0_def m0_def)
  have q0: "q0 = q1 * 64 + m1"
    by (simp add: q1_def m1_def)
  have q1: "q1 = q2 * 64 + m2"
    by (simp add: q2_def m2_def)
  have m0: "0 \<le> m0" "m0 \<le> 63"
    by (simp_all add: m0_def)
  have m1: "0 \<le> m1" "m1 \<le> 63"
    by (simp_all add: m1_def)
  have m2: "0 \<le> m2" "m2 \<le> 63"
    by (simp_all add: m2_def)
  have q2: "0 \<le> q2" "q2 \<le> 4"
    using assms r q0 q1 m0 m1 m2 by linarith+
  have lo: "240 + q2 = 240 \<Longrightarrow> 144 \<le> 128 + m2"
    using assms r q0 q1 m0 m1 m2 by linarith
  have hi: "240 + q2 = 244 \<Longrightarrow> 128 + m2 \<le> 143"
    using assms r q0 q1 m0 m1 m2 by linarith
  have e0: "(240 + q2) mod 8 = q2"
    using mod_add_const [of q2 8 30] q2 by simp
  have e1: "(128 + m2) mod 64 = m2"
    using mod_add_const [of m2 64 2] m2 by simp
  have e2: "(128 + m1) mod 64 = m1"
    using mod_add_const [of m1 64 2] m1 by simp
  have e3: "(128 + m0) mod 64 = m0"
    using mod_add_const [of m0 64 2] m0 by simp
  have "DecodeRuneInString
          (char_of (240 + q2) # char_of (128 + m2) # char_of (128 + m1) # char_of (128 + m0) # t) =
          (((240 + q2) mod 8) * 262144 + ((128 + m2) mod 64) * 4096 + ((128 + m1) mod 64) * 64
             + (128 + m0) mod 64, 4)"
    using q2 m2 m1 m0 lo hi by (intro Decode4) linarith+
  moreover have "q2 * 262144 + m2 * 4096 + m1 * 64 + m0 = r"
    using r q0 q1 by linarith
  ultimately have
    "DecodeRuneInString
       (char_of (240 + q2) # char_of (128 + m2) # char_of (128 + m1) # char_of (128 + m0) # t) =
       (r, 4)"
    by (simp only: e0 e1 e2 e3)
  moreover have "r div 4096 = q1"
    by (simp add: div4096 q1_def q0_def)
  moreover have "r div 262144 = q2"
    by (simp add: div262144 q2_def q1_def q0_def)
  ultimately show ?thesis
    using assms by (simp add: AppendRune_def q0_def m0_def m1_def m2_def)
qed

lemma decode_enc_error:
  assumes "\<not> ValidRune r"
  shows "DecodeRuneInString (AppendRune r @ t) = (RuneError, 3)"
proof -
  have "DecodeRuneInString (char_of (0xEF :: int) # char_of (0xBF :: int) # char_of (0xBD :: int) # t)
          = (RuneError, 3)"
    using Decode3 [of 239 191 189 t] by (simp add: RuneError_def)
  moreover have "AppendRune r = [char_of (0xEF :: int), char_of (0xBF :: int), char_of (0xBD :: int)]"
    using assms by (auto simp add: AppendRune_def ValidRune_def)
  ultimately show ?thesis
    by simp
qed

lemma DecodeRuneInString_AppendRune:
  "DecodeRuneInString (AppendRune r @ t) =
     (if ValidRune r then r else RuneError, length (AppendRune r))"
proof (cases "ValidRune r")
  case False
  then show ?thesis
    using decode_enc_error [of r t] by (auto simp add: AppendRune_def ValidRune_def)
next
  case True
  consider "r \<le> 0x7F" | "0x80 \<le> r" "r \<le> 0x7FF" | "0x800 \<le> r" "r \<le> 0xFFFF" | "0x10000 \<le> r"
    by linarith
  then show ?thesis
  proof cases
    case 1
    then show ?thesis
      using True decode_enc1 [of r t] by (auto simp add: AppendRune_def ValidRune_def)
  next
    case 2
    then show ?thesis
      using True decode_enc2 [of r t] by (auto simp add: AppendRune_def ValidRune_def)
  next
    case 3
    then show ?thesis
      using True decode_enc3 [of r t] by (auto simp add: AppendRune_def ValidRune_def)
  next
    case 4
    then show ?thesis
      using True decode_enc4 [of r t] by (auto simp add: AppendRune_def ValidRune_def)
  qed
qed

lemma AppendRune_nonempty: "AppendRune r \<noteq> []"
  by (simp add: AppendRune_def)

lemma AppendRune_invalid:
  "\<not> ValidRune r \<Longrightarrow> AppendRune r = AppendRune RuneError"
  by (auto simp add: AppendRune_def ValidRune_def RuneError_def)

lemma range_runes_skip: "range_runes (length xs) (xs @ t) = range_runes 0 t"
  by (induction xs) simp_all

lemma range_runes_AppendRune:
  "range_runes 0 (AppendRune r @ t) = (if ValidRune r then r else RuneError) # range_runes 0 t"
proof -
  obtain c cs where enc: "AppendRune r = c # cs"
    using AppendRune_nonempty [of r] by (cases "AppendRune r") auto
  have "DecodeRuneInString (c # cs @ t) = (if ValidRune r then r else RuneError, Suc (length cs))"
    using DecodeRuneInString_AppendRune [of r t] by (simp add: enc)
  then have "range_runes 0 (c # cs @ t) =
               (if ValidRune r then r else RuneError) # range_runes (length cs) (cs @ t)"
    by (simp del: DecodeRuneInString.simps)
  then show ?thesis
    by (simp add: enc range_runes_skip)
qed

lemma range_runes_concat:
  "range_runes 0 (concat (map AppendRune rs)) =
     map (\<lambda>r. if ValidRune r then r else RuneError) rs"
  by (induction rs) (simp_all add: range_runes_AppendRune del: range_runes.simps(3))

lemma length_filter_all:
  "length (filter P xs) = length xs \<Longrightarrow> x \<in> set xs \<Longrightarrow> P x"
proof (induction xs)
  case Nil
  then show ?case by simp
next
  case (Cons a xs)
  have le: "length (filter P xs) \<le> length xs"
    by (rule length_filter_le)
  show ?case
  proof (cases "P a")
    case True
    with Cons show ?thesis by auto
  next
    case False
    with Cons.prems le show ?thesis by simp
  qed
qed

lemma map_fixed: "map g xs = xs \<Longrightarrow> x \<in> set xs \<Longrightarrow> g x = x"
  by (induction xs) auto

lemma Map_filter:
  "Map f s = concat (map AppendRune (filter (\<lambda>x. 0 \<le> x) (map f (range_runes 0 s))))"
proof -
  have "concat (map (\<lambda>c. let r = f c in if 0 \<le> r then AppendRune r else []) rs) =
          concat (map AppendRune (filter (\<lambda>x. 0 \<le> x) (map f rs)))" for rs
    by (induction rs) (simp_all add: Let_def)
  then show ?thesis
    by (simp add: Map_def)
qed

lemma Map_fixed:
  assumes "Map f s = s"
  shows "\<forall>r\<in>set (range_runes 0 s). 0 \<le> f r \<and> (if ValidRune (f r) then f r else RuneError) = r"
    and "well_formed s"
proof -
  let ?norm = "\<lambda>r. if ValidRune r then r else RuneError"
  define rs where "rs = range_runes 0 s"
  define ys where "ys = filter (\<lambda>x. 0 \<le> x) (map f rs)"
  have s: "s = concat (map AppendRune ys)"
    using assms by (simp add: Map_filter ys_def rs_def)
  have rs: "rs = map ?norm ys"
    unfolding rs_def by (subst s) (rule range_runes_concat)
  have "length rs = length ys"
    by (subst rs) simp
  then have "length (filter (\<lambda>x. 0 \<le> x) (map f rs)) = length (map f rs)"
    by (simp only: ys_def length_map)
  then have nonneg: "\<And>x. x \<in> set (map f rs) \<Longrightarrow> 0 \<le> x"
    by (rule length_filter_all)
  then have ys: "ys = map f rs"
    by (simp add: ys_def)
  have "map (\<lambda>r. ?norm (f r)) rs = rs"
    using rs by (simp add: ys comp_def)
  then have "\<And>r. r \<in> set rs \<Longrightarrow> ?norm (f r) = r"
    by (rule map_fixed)
  with nonneg show "\<forall>r\<in>set (range_runes 0 s). 0 \<le> f r \<and> ?norm (f r) = r"
    by (simp add: rs_def)
  have "AppendRune (?norm y) = AppendRune y" for y
    by (simp add: AppendRune_invalid)
  then have "map AppendRune (map ?norm ys) = map AppendRune ys"
    by (simp add: comp_def)
  then have "concat (map AppendRune rs) = s"
    by (simp only: rs s)
  then show "well_formed s"
    by (simp add: well_formed_def rs_def)
qed

lemma of_char_mod: "(of_char c :: int) = of_char c mod 256"
  using of_char_of [of "of_char c :: int"] by (simp add: char_of_char)

lemma of_char_nonneg: "0 \<le> (of_char c :: int)"
  using of_char_mod [of c] pos_mod_sign [of 256 "of_char c :: int"] by simp

lemma DecodeRuneInString_nonneg: "DecodeRuneInString s = (r, w) \<Longrightarrow> 0 \<le> r"
  by (cases s) (auto simp add: Let_def RuneError_def of_char_nonneg split: if_splits)

lemma DecodeRuneInString_ASCII:
  "(of_char c :: int) < 0x80 \<Longrightarrow> DecodeRuneInString (c # rest) = (of_char c, 1)"
  by simp

lemma DecodeRuneInString_continuation:
  assumes "DecodeRuneInString (c0 # rest) = (r, w)" "i < w - 1"
  shows "i < length rest \<and> 0x80 \<le> (of_char (rest ! i) :: int)"
  using assms
  by (auto simp add: Let_def less_Suc_eq numeral_2_eq_2 numeral_3_eq_3 length_greater_0_conv [symmetric]
        simp del: length_greater_0_conv length_0_conv split: if_splits)

lemma range_runes_nonneg: "r \<in> set (range_runes skip s) \<Longrightarrow> 0 \<le> r"
proof (induction s arbitrary: skip)
  case Nil
  then show ?case by simp
next
  case (Cons c0 rest)
  show ?case
  proof (cases skip)
    case (Suc k)
    with Cons show ?thesis by simp
  next
    case 0
    obtain r0 w where dec: "DecodeRuneInString (c0 # rest) = (r0, w)"
      by (cases "DecodeRuneInString (c0 # rest)")
    then have rr: "range_runes 0 (c0 # rest) = r0 # range_runes (w - 1) rest"
      by (simp del: DecodeRuneInString.simps)
    from Cons.prems have "r \<in> set (r0 # range_runes (w - 1) rest)"
      unfolding 0 rr .
    then show ?thesis
      using DecodeRuneInString_nonneg [OF dec] Cons.IH by auto
  qed
qed

lemma range_runes_ASCII_byte:
  assumes "\<forall>i < skip. i < length s \<and> 0x80 \<le> (of_char (s ! i) :: int)"
    and "c \<in> set s" "(of_char c :: int) < 0x80"
  shows "of_char c \<in> set (range_runes skip s)"
  using assms
proof (induction s arbitrary: skip)
  case Nil
  then show ?case by simp
next
  case (Cons c0 rest)
  show ?case
  proof (cases skip)
    case (Suc k)
    from Cons.prems(1) Suc have "0x80 \<le> (of_char c0 :: int)"
      by auto
    with Cons.prems have c: "c \<in> set rest"
      by auto
    from Cons.prems(1) Suc have "\<forall>i < k. i < length rest \<and> 0x80 \<le> (of_char (rest ! i) :: int)"
      by auto
    from Cons.IH [OF this c Cons.prems(3)] Suc show ?thesis
      by simp
  next
    case 0
    obtain r0 w where dec: "DecodeRuneInString (c0 # rest) = (r0, w)"
      by (cases "DecodeRuneInString (c0 # rest)")
    then have rr: "range_runes 0 (c0 # rest) = r0 # range_runes (w - 1) rest"
      by (simp del: DecodeRuneInString.simps)
    show ?thesis
    proof (cases "c = c0")
      case True
      with Cons.prems(3) dec have "r0 = of_char c"
        by simp
      then show ?thesis
        unfolding 0 rr by simp
    next
      case False
      with Cons.prems have c: "c \<in> set rest"
        by simp
      have "\<forall>i < w - 1. i < length rest \<and> 0x80 \<le> (of_char (rest ! i) :: int)"
        using DecodeRuneInString_continuation [OF dec] by blast
      from Cons.IH [OF this c Cons.prems(3)] show ?thesis
        unfolding 0 rr by simp
    qed
  qed
qed

lemma range_runes_ASCII:
  "list_all (\<lambda>c. (of_char c :: int) < 0x80) s \<Longrightarrow> range_runes 0 s = map of_char s"
  by (induction s) simp_all

lemma AppendRune_ASCII: "(of_char c :: int) < 0x80 \<Longrightarrow> AppendRune (of_char c) = [c]"
  using of_char_nonneg [of c] by (simp add: AppendRune_def char_of_char)

lemma well_formed_ASCII:
  "list_all (\<lambda>c. (of_char c :: int) < 0x80) s \<Longrightarrow> well_formed s"
proof -
  have "list_all (\<lambda>c. (of_char c :: int) < 0x80) s \<Longrightarrow>
          concat (map AppendRune (map of_char s)) = s"
    by (induction s) (simp_all add: AppendRune_ASCII)
  then show "list_all (\<lambda>c. (of_char c :: int) < 0x80) s \<Longrightarrow> well_formed s"
    by (simp add: well_formed_def range_runes_ASCII)
qed

lemma isUpper_lower: "isUpper c \<Longrightarrow> char_of ((of_char c :: int) + 32) \<noteq> c"
proof
  assume up: "isUpper c" and eq: "char_of ((of_char c :: int) + 32) = c"
  have "(of_char (char_of ((of_char c :: int) + 32)) :: int) = of_char c + 32"
    using up by (intro byte_roundtrip) (simp_all add: isUpper_def)
  with eq show False
    by simp
qed

lemma ToLower_ASCII:
  assumes "list_all (\<lambda>c. (of_char c :: int) < 0x80) s"
  shows "ToLower tbl s = s \<longleftrightarrow> \<not> list_ex isUpper s"
proof (cases "list_ex isUpper s")
  case False
  with assms show ?thesis
    by (simp add: ToLower_def)
next
  case True
  then obtain c where c: "c \<in> set s" "isUpper c"
    by (auto simp add: list_ex_iff)
  let ?g = "\<lambda>c. if isUpper c then char_of ((of_char c :: int) + 32) else c"
  have "map ?g s \<noteq> s"
  proof
    assume "map ?g s = s"
    from map_fixed [OF this c(1)] c(2) isUpper_lower [of c] show False
      by simp
  qed
  with assms True show ?thesis
    by (simp add: ToLower_def)
qed

lemma unicode_ToLower_upper:
  "isUpper c \<Longrightarrow> unicode_ToLower tbl (of_char c) = of_char c + 32"
  by (simp add: unicode_ToLower_def isUpper_def)

lemma unicode_ToLower_ASCII_fixed:
  "(of_char c :: int) < 0x80 \<Longrightarrow> unicode_ToLower tbl (of_char c) = of_char c \<longleftrightarrow> \<not> isUpper c"
  by (auto simp add: unicode_ToLower_def isUpper_def)

text \<open>The string that is its own lower case.\<close>

lemma ToLower_fixed_well_formed:
  assumes "ToLower tbl s = s"
  shows "well_formed s"
proof (cases "list_all (\<lambda>c. (of_char c :: int) < 0x80) s")
  case True
  then show ?thesis by (rule well_formed_ASCII)
next
  case False
  with assms have "Map (unicode_ToLower tbl) s = s"
    by (simp add: ToLower_def)
  then show ?thesis by (rule Map_fixed(2))
qed

lemma ToLower_fixed_runes:
  assumes "ToLower tbl s = s" "r \<in> set (range_runes 0 s)" "r \<noteq> RuneError"
  shows "unicode_ToLower tbl r = r"
proof (cases "list_all (\<lambda>c. (of_char c :: int) < 0x80) s")
  case True
  with assms(2) obtain c where c: "c \<in> set s" "r = of_char c"
    by (auto simp add: range_runes_ASCII)
  from True c(1) have ascii: "(of_char c :: int) < 0x80"
    by (simp add: list_all_iff)
  from assms(1) True have "\<not> list_ex isUpper s"
    by (simp add: ToLower_ASCII)
  with c(1) have "\<not> isUpper c"
    by (auto simp add: list_ex_iff)
  with ascii c(2) show ?thesis
    by (simp add: unicode_ToLower_ASCII_fixed)
next
  case False
  with assms have "Map (unicode_ToLower tbl) s = s"
    by (simp add: ToLower_def)
  from Map_fixed(1) [OF this] assms(2)
  have "(if ValidRune (unicode_ToLower tbl r) then unicode_ToLower tbl r else RuneError) = r"
    by blast
  with assms(3) show ?thesis
    by (simp split: if_splits)
qed

lemma ToLower_fixed_bytes:
  assumes "ToLower tbl s = s" "c \<in> set s"
  shows "\<not> isUpper c"
proof
  assume up: "isUpper c"
  then have ascii: "(of_char c :: int) < 0x80"
    by (simp add: isUpper_def)
  have "of_char c \<in> set (range_runes 0 s)"
    using assms(2) ascii by (intro range_runes_ASCII_byte) simp_all
  moreover have "(of_char c :: int) \<noteq> RuneError"
    using ascii by (simp add: RuneError_def)
  ultimately have "unicode_ToLower tbl (of_char c) = of_char c"
    using assms(1) by (rule ToLower_fixed_runes [rotated])
  with up show False
    by (simp add: unicode_ToLower_upper)
qed

lemma ToLower_lowercase:
  assumes "well_formed s" "\<forall>r\<in>set (range_runes 0 s). unicode_ToLower tbl r = r"
  shows "ToLower tbl s = s"
proof (cases "list_all (\<lambda>c. (of_char c :: int) < 0x80) s")
  case True
  have "\<not> isUpper c" if "c \<in> set s" for c
  proof -
    from True that have ascii: "(of_char c :: int) < 0x80"
      by (simp add: list_all_iff)
    from that True have "of_char c \<in> set (range_runes 0 s)"
      by (simp add: range_runes_ASCII)
    with assms(2) have "unicode_ToLower tbl (of_char c) = of_char c"
      by blast
    with ascii show ?thesis
      by (simp add: unicode_ToLower_ASCII_fixed)
  qed
  then have "\<not> list_ex isUpper s"
    by (auto simp add: list_ex_iff)
  with True show ?thesis
    by (simp add: ToLower_ASCII)
next
  case False
  have "map (\<lambda>c. let r = unicode_ToLower tbl c in if 0 \<le> r then AppendRune r else [])
          (range_runes 0 s) = map AppendRune (range_runes 0 s)"
    using assms(2) range_runes_nonneg [of _ 0 s] by (intro map_cong) (simp_all add: Let_def)
  then have "Map (unicode_ToLower tbl) s = concat (map AppendRune (range_runes 0 s))"
    by (simp only: Map_def)
  with assms(1) have "Map (unicode_ToLower tbl) s = s"
    by (simp only: well_formed_def)
  with False show ?thesis
    by (simp add: ToLower_def)
qed

subsection \<open>The plan-time rules\<close>

lemma ValidateDomains_loop_None:
  "ValidateDomains_loop To_LowerCase v ds = None \<longleftrightarrow>
     (\<forall>domain\<in>set ds. domain = ToLower To_LowerCase domain)"
  by (induction ds) auto

lemma CustomizeDiff_errors:
  "fst (CustomizeDiff To_LowerCase d meta) =
     (case ValidateDomains_loop To_LowerCase (domains (diff_plan d)) (domains (diff_plan d)) of
        None \<Rightarrow> [] | Some e \<Rightarrow> [e]) @
     (case fst (resourceFastlyTLSSubscriptionValidateCommonName To_LowerCase
                  (common_name (diff_plan d)) meta) of
        None \<Rightarrow> [] | Some e \<Rightarrow> [e])"
  by (simp add: CustomizeDiff_def ForceNewIf_def ForceNew_def ValidateValue_def
      resourceFastlyTLSSubscriptionSetNewComputed_def SetNewComputed_def
      resourceFastlyTLSSubscriptionIsStateImmutable_def
      resourceFastlyTLSSubscriptionValidateDomains_def
      resourceFastlyTLSSubscriptionValidateCommonName_def Let_def
      split: option.splits prod.splits)

lemma CustomizeDiff_calls:
  "snd (snd (CustomizeDiff To_LowerCase d meta)) = []"
  by (simp add: CustomizeDiff_def ForceNewIf_def ForceNew_def ValidateValue_def
      resourceFastlyTLSSubscriptionSetNewComputed_def SetNewComputed_def
      resourceFastlyTLSSubscriptionIsStateImmutable_def
      resourceFastlyTLSSubscriptionValidateDomains_def
      resourceFastlyTLSSubscriptionValidateCommonName_def Let_def
      split: option.splits prod.splits)

text \<open>
  C8. The validation of the domains succeeds exactly when every entry equals its own
  lower case, and the validation of the common name exactly when the common name does;
  this holds for every case table of Unicode. A value equals its own lower case when it
  is valid UTF-8 and the lower case of each of its runes is the rune itself. It does not,
  so that the validation fails, when it holds a rune whose lower case is another rune
  (U+FFFD apart, which Unicode leaves as it is and which also stands for a byte that is
  not UTF-8), when it holds one of the bytes \<open>A\<close> to \<open>Z\<close>, or when it is not valid UTF-8.
  The two validators and the plan-time rules as a whole issue no remote call, and the
  plan-time rules report no error exactly when both validations succeed.
\<close>

theorem Validate_rejects_uppercase:
  "(fst (resourceFastlyTLSSubscriptionValidateDomains To_LowerCase v meta) = None \<longleftrightarrow>
      (\<forall>domain\<in>set v. domain = ToLower To_LowerCase domain))
   \<and> (fst (resourceFastlyTLSSubscriptionValidateCommonName To_LowerCase name meta) = None \<longleftrightarrow>
      name = ToLower To_LowerCase name)
   \<and> (well_formed s \<and> (\<forall>r\<in>set (range_runes 0 s). unicode_ToLower To_LowerCase r = r) \<longrightarrow>
      s = ToLower To_LowerCase s)
   \<and> ((\<exists>r\<in>set (range_runes 0 s). r \<noteq> RuneError \<and> unicode_ToLower To_LowerCase r \<noteq> r) \<longrightarrow>
      s \<noteq> ToLower To_LowerCase s)
   \<and> ((\<exists>c\<in>set s. isUpper c) \<longrightarrow> s \<noteq> ToLower To_LowerCase s)
   \<and> (\<not> well_formed s \<longrightarrow> s \<noteq> ToLower To_LowerCase s)
   \<and> snd (resourceFastlyTLSSubscriptionValidateDomains To_LowerCase v meta) = []
   \<and> snd (resourceFastlyTLSSubscriptionValidateCommonName To_LowerCase name meta) = []
   \<and> snd (snd (CustomizeDiff To_LowerCase d meta)) = []
   \<and> (fst (CustomizeDiff To_LowerCase d meta) = [] \<longleftrightarrow>
      (\<forall>domain\<in>set (domains (diff_plan d)). domain = ToLower To_LowerCase domain) \<and>
      common_name (diff_plan d) = ToLower To_LowerCase (common_name (diff_plan d)))"
proof -
  have a: "fst (resourceFastlyTLSSubscriptionValidateDomains To_LowerCase v meta) = None \<longleftrightarrow>
      (\<forall>domain\<in>set v. domain = ToLower To_LowerCase domain)"
    by (simp add: resourceFastlyTLSSubscriptionValidateDomains_def ValidateDomains_loop_None)
  have b: "fst (resourceFastlyTLSSubscriptionValidateCommonName To_LowerCase name meta) = None \<longleftrightarrow>
      name = ToLower To_LowerCase name" for name
    by (simp add: resourceFastlyTLSSubscriptionValidateCommonName_def)
  have c: "well_formed s \<and> (\<forall>r\<in>set (range_runes 0 s). unicode_ToLower To_LowerCase r = r) \<longrightarrow>
      s = ToLower To_LowerCase s"
    using ToLower_lowercase [of s To_LowerCase] by simp
  have d: "(\<exists>r\<in>set (range_runes 0 s). r \<noteq> RuneError \<and> unicode_ToLower To_LowerCase r \<noteq> r) \<longrightarrow>
      s \<noteq> ToLower To_LowerCase s"
    using ToLower_fixed_runes [of To_LowerCase s] by metis
  have e: "(\<exists>c\<in>set s. isUpper c) \<longrightarrow> s \<noteq> ToLower To_LowerCase s"
    using ToLower_fixed_bytes [of To_LowerCase s] by metis
  have f: "\<not> well_formed s \<longrightarrow> s \<noteq> ToLower To_LowerCase s"
    using ToLower_fixed_well_formed [of To_LowerCase s] by metis
  have g: "snd (resourceFastlyTLSSubscriptionValidateDomains To_LowerCase v meta) = []"
    by (simp add: resourceFastlyTLSSubscriptionValidateDomains_def)
  have h: "snd (resourceFastlyTLSSubscriptionValidateCommonName To_LowerCase name meta) = []"
    by (simp add: resourceFastlyTLSSubscriptionValidateCommonName_def)
  have i: "snd (snd (CustomizeDiff To_LowerCase d meta)) = []"
    by (rule CustomizeDiff_calls)
  have j: "fst (CustomizeDiff To_LowerCase d meta) = [] \<longleftrightarrow>
      (\<forall>domain\<in>set (domains (diff_plan d)). domain = ToLower To_LowerCase domain) \<and>
      common_name (diff_plan d) = ToLower To_LowerCase (common_name (diff_plan d))"
    unfolding CustomizeDiff_errors
    using ValidateDomains_loop_None [of To_LowerCase "domains (diff_plan d)" "domains (diff_plan d)"]
      b [of "common_name (diff_plan d)"]
    by (auto split: option.splits)
  from a b [of name] c d e f g h i j show ?thesis
    by blast
qed

text \<open>An instance of C8 on the example payloads.\<close>

theorem Validate_rejects_uppercase_witness:
  "well_formed small_ecole
   \<and> range_runes 0 small_ecole = 0xE9 # map of_char ''cole.example.com''
   \<and> fst (resourceFastlyTLSSubscriptionValidateDomains latin1_LowerCase
            [''example.com'', small_ecole] failing_conn) = None
   \<and> fst (resourceFastlyTLSSubscriptionValidateCommonName latin1_LowerCase
            small_ecole failing_conn) = None
   \<and> range_runes 0 capital_ecole = 0xC9 # map of_char ''cole.example.com''
   \<and> unicode_ToLower latin1_LowerCase 0xC9 = 0xE9
   \<and> fst (resourceFastlyTLSSubscriptionValidateDomains latin1_LowerCase
            [''example.com'', capital_ecole] failing_conn) \<noteq> None
   \<and> isUpper CHR ''E''
   \<and> fst (resourceFastlyTLSSubscriptionValidateCommonName latin1_LowerCase
            ''Example.com'' failing_conn) \<noteq> None
   \<and> \<not> well_formed latin1_cafe
   \<and> fst (resourceFastlyTLSSubscriptionValidateCommonName latin1_LowerCase
            latin1_cafe failing_conn) \<noteq> None
   \<and> snd (resourceFastlyTLSSubscriptionValidateDomains latin1_LowerCase
            [''example.com'', capital_ecole] failing_conn) = []
   \<and> snd (resourceFastlyTLSSubscriptionValidateCommonName latin1_LowerCase
            latin1_cafe failing_conn) = []
   \<and> snd (snd (CustomizeDiff latin1_LowerCase (example_diff ''issued'') failing_conn)) = []
   \<and> fst (CustomizeDiff latin1_LowerCase (example_diff ''issued'') failing_conn) = []"
proof -
  have small: "range_runes 0 small_ecole = 0xE9 # map of_char ''cole.example.com''"
    by code_simp
  have capital: "range_runes 0 capital_ecole = 0xC9 # map of_char ''cole.example.com''"
    by code_simp
  have wf: "well_formed small_ecole"
    by code_simp
  have low: "\<forall>r\<in>set (range_runes 0 small_ecole). unicode_ToLower latin1_LowerCase r = r"
    by code_simp
  have plain: "well_formed ''example.com'' \<and>
      (\<forall>r\<in>set (range_runes 0 ''example.com''). unicode_ToLower latin1_LowerCase r = r)"
    by code_simp
  have plain': "well_formed ''www.example.com'' \<and>
      (\<forall>r\<in>set (range_runes 0 ''www.example.com''). unicode_ToLower latin1_LowerCase r = r)"
    by code_simp
  have up: "\<exists>r\<in>set (range_runes 0 capital_ecole).
      r \<noteq> RuneError \<and> unicode_ToLower latin1_LowerCase r \<noteq> r"
    by code_simp
  have e: "unicode_ToLower latin1_LowerCase 0xC9 = 0xE9"
    by code_simp
  have E: "isUpper CHR ''E''"
    by code_simp
  have E': "\<exists>c\<in>set ''Example.com''. isUpper c"
    by code_simp
  have cafe: "\<not> well_formed latin1_cafe"
    by code_simp
  have plan: "domains (diff_plan (example_diff ''issued'')) = [''example.com'', ''www.example.com'']"
    "common_name (diff_plan (example_diff ''issued'')) = ''example.com''"
    by (simp_all add: example_diff_def example_attrs_def)
  note t = Validate_rejects_uppercase
  from t [of latin1_LowerCase "[''example.com'', small_ecole]" failing_conn small_ecole small_ecole
           "example_diff ''issued''"]
    t [of latin1_LowerCase "[''example.com'', capital_ecole]" failing_conn "''Example.com''"
           capital_ecole "example_diff ''issued''"]
    t [of latin1_LowerCase "[''example.com'', capital_ecole]" failing_conn "''Example.com''"
           "''Example.com''" "example_diff ''issued''"]
    t [of latin1_LowerCase "[''example.com'', capital_ecole]" failing_conn latin1_cafe
           latin1_cafe "example_diff ''issued''"]
    t [of latin1_LowerCase "[''example.com'', capital_ecole]" failing_conn latin1_cafe
           "''example.com''" "example_diff ''issued''"]
    t [of latin1_LowerCase "[''example.com'', capital_ecole]" failing_conn latin1_cafe
           "''www.example.com''" "example_diff ''issued''"]
    small capital wf low plain plain' up e E E' cafe
  show ?thesis
    by (simp add: plan)
qed

lemma CustomizeDiff_forcedNewKeys:
  "forcedNewKeys (fst (snd (CustomizeDiff To_LowerCase d meta))) =
     forcedNewKeys d @
       (if fst (resourceFastlyTLSSubscriptionIsStateImmutable d meta) then
          filter (\<lambda>key. HasChange key (diff_state d) (diff_plan d))
            [''configuration_id'', ''domains'', ''common_name'']
        else [])"
  by (simp add: CustomizeDiff_def ForceNewIf_def ForceNew_def ValidateValue_def
      resourceFastlyTLSSubscriptionSetNewComputed_def SetNewComputed_def
      resourceFastlyTLSSubscriptionIsStateImmutable_def
      resourceFastlyTLSSubscriptionValidateDomains_def
      resourceFastlyTLSSubscriptionValidateCommonName_def Let_def
      split: option.splits prod.splits)

text \<open>
  C5. For each of \<open>configuration_id\<close>, \<open>domains\<close> and \<open>common_name\<close>: when the
  planned diff has a change of that attribute (and the attribute does not force a new
  resource already), the plan-time rules mark it as forcing a new resource if and only
  if the last-known state is neither \<open>issued\<close> nor \<open>pending\<close>.
\<close>

theorem change_forces_replacement_iff_immutable:
  assumes "key \<in> {''configuration_id'', ''domains'', ''common_name''}"
    and "HasChange key (diff_state d) (diff_plan d)"
    and "key \<notin> set (forcedNewKeys d)"
  shows "key \<in> set (forcedNewKeys (fst (snd (CustomizeDiff To_LowerCase d meta)))) \<longleftrightarrow>
    state (diff_plan d) \<noteq> ''issued'' \<and> state (diff_plan d) \<noteq> ''pending''"
  using assms
  by (auto simp: CustomizeDiff_forcedNewKeys resourceFastlyTLSSubscriptionIsStateImmutable_def)

text \<open>An instance of C5 on the example payloads.\<close>

theorem change_forces_replacement_iff_immutable_witness:
  "HasChange ''domains'' (diff_state (example_diff ''renewing'')) (diff_plan (example_diff ''renewing''))
   \<and> ''domains'' \<in> set (forcedNewKeys (fst (snd
         (CustomizeDiff (\<lambda>r. r) (example_diff ''renewing'') failing_conn))))
   \<and> HasChange ''domains'' (diff_state (example_diff ''issued'')) (diff_plan (example_diff ''issued''))
   \<and> ''domains'' \<notin> set (forcedNewKeys (fst (snd
         (CustomizeDiff (\<lambda>r. r) (example_diff ''issued'') failing_conn))))"
proof -
  have k: "''domains'' \<in> {''configuration_id'', ''domains'', ''common_name''}"
    by simp
  have c: "HasChange ''domains'' (diff_state (example_diff st)) (diff_plan (example_diff st))" for st
    by (simp add: HasChange_def example_diff_def example_attrs_def)
  have n: "''domains'' \<notin> set (forcedNewKeys (example_diff st))" for st
    by (simp add: example_diff_def)
  have r: "state (diff_plan (example_diff st)) = st" for st
    by (simp add: example_diff_def)
  from change_forces_replacement_iff_immutable
      [of "''domains''" "example_diff ''renewing''" "\<lambda>r. r" failing_conn, OF k c n]
    change_forces_replacement_iff_immutable
      [of "''domains''" "example_diff ''issued''" "\<lambda>r. r" failing_conn, OF k c n] c
  show ?thesis
    by (simp add: r)
qed


end
